theory Spec2Isabelle
  imports Main
begin

section \<open>JavaScript values\<close>

text \<open>
  The values the route builder and the error handler inspect. An object is described by
  what the code reads of it: the class names along its prototype chain (nearest first, so
  an instance of \<open>TypeError\<close> has \<open>[''TypeError'', ''Error'', ''Object'']\<close>), its
  \<open>code\<close> and \<open>message\<close> properties, and the \<open>origin\<close> and \<open>uid\<close> properties that
  \<open>setOrigin\<close> and \<open>setUID\<close> write. \<open>Ctor ob\<close> is a constructor function whose
  \<open>new\<close> builds the object \<open>ob\<close>; \<open>Prim\<close> is any primitive (string, number, boolean).
\<close>

record jsobj =
  protos :: "string list"
  code :: "nat option"
  message :: string
  origin :: "string option"
  uid :: "string option"

datatype jsval = Undefined | Null | Prim string | Obj jsobj | Ctor jsobj

text \<open>\<open>v instanceof C\<close>: the prototype of class \<open>C\<close> is on the prototype chain of \<open>v\<close>.\<close>

definition instanceof :: "jsval \<Rightarrow> string \<Rightarrow> bool" where
  "instanceof v c = (case v of Obj ob \<Rightarrow> c \<in> set (protos ob) | _ \<Rightarrow> False)"

text \<open>
  \<open>Error.prototype.isPrototypeOf(Object.getPrototypeOf(v))\<close>: \<open>Error.prototype\<close> is on the
  chain strictly above the own prototype of \<open>v\<close>, so a direct instance of \<open>Error\<close> does not
  qualify and an instance of a subclass does.
\<close>

definition errorProtoAbove :: "jsval \<Rightarrow> bool" where
  "errorProtoAbove v = (case v of Obj ob \<Rightarrow> ''Error'' \<in> set (tl (protos ob)) | _ \<Rightarrow> False)"

text \<open>\<open>err.code\<close>, \<open>undefined\<close> for a value that has no such property.\<close>

definition err_code :: "jsval \<Rightarrow> nat option" where
  "err_code err = (case err of Obj ob \<Rightarrow> code ob | _ \<Rightarrow> None)"

definition newError :: "string list \<Rightarrow> nat option \<Rightarrow> string \<Rightarrow> jsobj" where
  "newError cls c msg = \<lparr>protos = cls, code = c, message = msg, origin = None, uid = None\<rparr>"

text \<open>
  Modelled from the spec: the error classes of \<open>lib/error\<close>, which are not among the
  sources. \<open>RouteError\<close> is the configuration error of section 7; \<open>ServiceError\<close> is the
  internal fault, a \<open>RequestError\<close> always rendered with status 500 and the generic
  message, whatever its constructor is given (that argument is kept for logging only, and
  nothing here reads it); \<open>ValidationError\<close> is the 400-class client error of schema
  validation.
\<close>

definition RouteError :: "string \<Rightarrow> jsval" where
  "RouteError msg = Obj (newError [''RouteError'', ''Error'', ''Object''] None msg)"

definition TypeError :: "string \<Rightarrow> jsval" where
  "TypeError msg = Obj (newError [''TypeError'', ''Error'', ''Object''] None msg)"

definition ServiceError :: "string \<Rightarrow> jsobj" where
  "ServiceError context =
     newError [''ServiceError'', ''RequestError'', ''Error'', ''Object''] (Some 500)
       ''Internal Server Error''"

definition ValidationError :: jsobj where
  "ValidationError =
     newError [''ValidationError'', ''RequestError'', ''Error'', ''Object''] (Some 400) []"

section \<open>Strings\<close>

text \<open>\<open>String.prototype.toLowerCase\<close> on ASCII, and the decimal numeral \<open>n.toString()\<close>.\<close>

definition char_toLowerCase :: "char \<Rightarrow> char" where
  "char_toLowerCase c =
     (let n = (of_char c :: nat) in if 65 \<le> n \<and> n \<le> 90 then char_of (n + 32) else c)"

definition toLowerCase :: "string \<Rightarrow> string" where
  "toLowerCase s = map char_toLowerCase s"

function toString :: "nat \<Rightarrow> string" where
  "toString n =
     (if n < 10 then [char_of (48 + n)] else toString (n div 10) @ [char_of (48 + n mod 10)])"
  by pat_completeness auto
termination
  by (relation "measure id") auto

declare toString.simps [simp del]

section \<open>The request, the response and the promise chain\<close>

text \<open>
  One in-flight request: what the steps of a route and the error handler read and write
  of the \<open>req\<close> and \<open>res\<close> objects. \<open>wrappedBy\<close> is the route the response wrapper
  belongs to (\<open>Response.wrap(res, self)\<close>), \<open>user\<close> whatever else the steps keep there.
\<close>

record 'u reqres =
  routeUID :: "string option"
  UID :: "string option"
  wrappedBy :: "string option"
  status :: "nat option"
  headersSent :: bool
  body :: "jsval option"
  user :: 'u

text \<open>
  A \<open>Response\<close> object holds the callback \<open>_fn\<close>; a label tells one callback from
  another in the trace. A callback, like every function a route calls, either completes
  or throws a value, and updates the request.
\<close>

datatype 'u response = Response (label: string) (responseFn: "'u reqres \<Rightarrow> jsval option \<times> 'u reqres")

datatype 'u candidate = Plain jsval | Resp "'u response"

datatype 'u outcome = Returns "'u candidate" | Throws jsval

type_synonym 'u step_fn = "'u reqres \<Rightarrow> 'u outcome \<times> 'u reqres"

type_synonym 'u catch_fn = "jsval \<Rightarrow> 'u reqres \<Rightarrow> 'u outcome \<times> 'u reqres"

text \<open>
  An error filter of \<open>catch\<close>: a constructor of an error class (it matches the instances
  of the class) or a predicate function.
\<close>

datatype filter = ErrorClass string | Predicate "jsval \<Rightarrow> bool"

fun matches :: "filter \<Rightarrow> jsval \<Rightarrow> bool" where
  "matches (ErrorClass c) e = instanceof e c"
| "matches (Predicate f) e = f e"

text \<open>
  One element of \<open>step.catch\<close>: the pair \<open>[filter, callback]\<close>. \<open>ccallback\<close> is \<open>None\<close>
  when the value passed as the callback is not a function.
\<close>

record 'u catch_entry =
  cfilter :: filter
  ccallback :: "'u catch_fn option"

section \<open>Routes\<close>

record 'u step =
  name :: string
  fn :: "'u step_fn"
  catch :: "'u catch_entry list"

text \<open>One accepted content type: the cloned options with \<open>parser\<close> and \<open>type\<close> assigned.\<close>

record ct_entry =
  ct_options :: "string \<rightharpoonup> string"
  ct_parser :: "string option"
  ct_type :: string

text \<open>
  The object \<open>$reqDataParser\<close>. Its name is always \<open>content-type-parser\<close> and its
  function the body-parsing middleware, so the record keeps the rest.

  \<open>contentTypes\<close> is a plain object used as a dictionary: the record has its own
  properties and its prototype, \<open>None\<close> for \<open>Object.prototype\<close>, which it has when it is
  created. Assigning the key \<open>__proto__\<close> makes the assigned entry the prototype instead
  of adding a property, and an own property \<open>hasOwnProperty\<close> hides the method of that
  name.
\<close>

record 'u parser =
  contentTypes :: "string \<rightharpoonup> ct_entry"
  contentTypesProto :: "ct_entry option"
  mediaTypes :: "string list"
  pcatch :: "'u catch_entry list"

text \<open>
  The elements of \<open>steps\<close>. The parser object is pushed on \<open>steps\<close> by reference and
  updated through \<open>$reqDataParser\<close> afterwards, so \<open>steps\<close> holds a reference to it and
  the route holds the object.
\<close>

datatype 'u slot = ParserRef | Step "'u step"

record 'u route =
  options_url :: string
  options_type :: string
  route_uid :: string
  steps :: "'u slot list"
  responses :: "nat option \<rightharpoonup> jsval list"
  reqDataParser :: "'u parser option"

definition slot_name :: "'u slot \<Rightarrow> string" where
  "slot_name s = (case s of ParserRef \<Rightarrow> ''content-type-parser'' | Step st \<Rightarrow> name st)"

definition slot_catch :: "'u route \<Rightarrow> 'u slot \<Rightarrow> 'u catch_entry list" where
  "slot_catch self s =
     (case s of
        ParserRef \<Rightarrow> (case reqDataParser self of None \<Rightarrow> [] | Some p \<Rightarrow> pcatch p)
      | Step st \<Rightarrow> catch st)"

definition push :: "'u slot \<Rightarrow> 'u route \<Rightarrow> 'u route" where
  "push s self = self\<lparr>steps := steps self @ [s]\<rparr>"

subsection \<open>acceptsContentType, rejectsContentType\<close>

text \<open>\<open>contentTypes[type] = entry\<close>\<close>

definition assign_entry :: "string \<Rightarrow> ct_entry \<Rightarrow> 'u parser \<Rightarrow> 'u parser" where
  "assign_entry type entry p =
     (if type = ''__proto__'' then p\<lparr>contentTypesProto := Some entry\<rparr>
      else p\<lparr>contentTypes := (contentTypes p)(type \<mapsto> entry)\<rparr>)"

text \<open>
  The three tests before the assignment, in the order of the source: the parser object
  is an object; \<open>_.isPlainObject(contentTypes)\<close>, which is false once the prototype is
  an entry; and \<open>contentTypes.hasOwnProperty(type)\<close>, a call that throws when the own
  property \<open>hasOwnProperty\<close> (an entry, not a function) hides the method.
\<close>

definition acceptsContentType ::
  "string \<Rightarrow> (string \<rightharpoonup> string) \<Rightarrow> string option \<Rightarrow> 'u route \<Rightarrow> jsval + 'u route" where
  "acceptsContentType type options prs self =
     (if toLowerCase (options_type self) \<in> set [''get'', ''options''] then Inr self
      else
        let self1 =
              (if reqDataParser self = None
               then push ParserRef
                      (self\<lparr>reqDataParser :=
                         Some \<lparr>contentTypes = Map.empty, contentTypesProto = None,
                               mediaTypes = [], pcatch = []\<rparr>\<rparr>)
               else self)
        in case reqDataParser self1 of
             None \<Rightarrow> Inr self1
           | Some p \<Rightarrow>
               if contentTypesProto p \<noteq> None then Inr self1
               else if contentTypes p ''hasOwnProperty'' \<noteq> None
               then Inl (TypeError ''contentTypes.hasOwnProperty is not a function'')
               else if contentTypes p type \<noteq> None then Inr self1
               else Inr (self1\<lparr>reqDataParser :=
                      Some ((assign_entry type
                               \<lparr>ct_options = options(''parser'' := None, ''type'' := None),
                                ct_parser = prs, ct_type = type\<rparr> p)
                            \<lparr>mediaTypes := mediaTypes p @ [type]\<rparr>)\<rparr>))"

text \<open>
  \<open>delete contentTypes[type]\<close> removes an own property, and \<open>mediaTypes.splice(index, 1)\<close>
  the first occurrence of \<open>type\<close>, when there is one.
\<close>

definition rejectsContentType :: "string \<Rightarrow> 'u route \<Rightarrow> 'u route" where
  "rejectsContentType type self =
     (case reqDataParser self of
        None \<Rightarrow> self
      | Some p \<Rightarrow>
          self\<lparr>reqDataParser :=
            Some (p\<lparr>contentTypes := (contentTypes p)(type := None),
                   mediaTypes := remove1 type (mediaTypes p)\<rparr>)\<rparr>)"

subsection \<open>respondsWith\<close>

text \<open>
  The key of \<open>description.responses\<close> is the status code: 200 for a schema, the \<open>code\<close>
  property for an error object or an error constructor (\<open>None\<close> when the error has none).
  Reading \<open>descriptor.prototype\<close> of \<open>undefined\<close> or \<open>null\<close> throws. \<open>resolve\<close> is
  the first half of \<open>respondsWith\<close>: the schema to store and its status code.
\<close>

definition resolve :: "jsval \<Rightarrow> jsval \<times> nat option" where
  "resolve descriptor =
     (case descriptor of
        Ctor ob \<Rightarrow>
          if ''Error'' \<in> set (tl (protos ob)) then (Obj ob, code ob)
          else (descriptor, Some 200)
      | _ \<Rightarrow>
          if instanceof descriptor ''Error'' then (descriptor, err_code descriptor)
          else (descriptor, Some 200))"

definition respondsWith :: "jsval \<Rightarrow> 'u route \<Rightarrow> jsval + 'u route" where
  "respondsWith descriptor self =
     (if descriptor = Undefined \<or> descriptor = Null
      then Inl (TypeError ''Cannot read property prototype'')
      else
        let (schema, code1) = resolve descriptor;
            old = (case responses self code1 of None \<Rightarrow> [] | Some l \<Rightarrow> l);
            new = (if code1 = Some 200 \<and> old \<noteq> [] then schema # tl old
                   else old @ [schema])
        in Inr (self\<lparr>responses := (responses self)(code1 \<mapsto> new)\<rparr>))"

subsection \<open>Declaring steps\<close>

definition main :: "'u step_fn \<Rightarrow> 'u route \<Rightarrow> 'u route" where
  "main f self = push (Step \<lparr>name = ''main'', fn = f, catch = []\<rparr>) self"

text \<open>
  \<open>validate\<close>: \<open>f\<close> is the middleware that \<open>validatorMiddleware\<close> builds from the
  arguments (the validator is a collaborator outside the sources). The copy of the
  arguments that the step keeps as \<open>args\<close> is left out: nothing here reads it.
\<close>

definition validate :: "'u step_fn \<Rightarrow> 'u route \<Rightarrow> jsval + 'u route" where
  "validate f self =
     respondsWith (Ctor ValidationError)
       (push (Step \<lparr>name = ''validator'', fn = f, catch = []\<rparr>) self)"

text \<open>
  \<open>addStep\<close> is called with a name and a function, or with the function alone; then the
  name is the number \<open>steps.length + 1\<close>. The names are compared with \<open>==\<close>: two strings
  are equal when they are the same string, and a string equals a number when the number
  it denotes (\<open>ToNumber\<close> of the language, a parameter here) is that number.
\<close>

datatype name_arg = Named string | Unnamed

definition addStep ::
  "(string \<Rightarrow> nat option) \<Rightarrow> name_arg \<Rightarrow> 'u step_fn \<Rightarrow> 'u route \<Rightarrow> jsval + 'u route" where
  "addStep ToNumber nm f self =
     (case nm of
        Named s \<Rightarrow>
          if find (\<lambda>step. slot_name step = s) (steps self) \<noteq> None
          then Inl (RouteError ''Route`s middleware name must be unique'')
          else Inr (push (Step \<lparr>name = s, fn = f, catch = []\<rparr>) self)
      | Unnamed \<Rightarrow>
          let n = length (steps self) + 1 in
          if find (\<lambda>step. ToNumber (slot_name step) = Some n) (steps self) \<noteq> None
          then Inl (RouteError ''Route`s middleware name must be unique'')
          else Inr (push (Step \<lparr>name = toString n, fn = f, catch = []\<rparr>) self))"

text \<open>\<open>catch\<close>: with no filter the filter is \<open>Error\<close>.\<close>

definition set_slot_catch :: "'u catch_entry list \<Rightarrow> 'u slot \<Rightarrow> 'u route \<Rightarrow> 'u route" where
  "set_slot_catch cs s self =
     (case s of
        ParserRef \<Rightarrow>
          self\<lparr>reqDataParser := map_option (\<lambda>p. p\<lparr>pcatch := cs\<rparr>) (reqDataParser self)\<rparr>
      | Step st \<Rightarrow> self\<lparr>steps := butlast (steps self) @ [Step (st\<lparr>catch := cs\<rparr>)]\<rparr>)"

definition Route_catch ::
  "filter option \<Rightarrow> 'u catch_fn option \<Rightarrow> 'u route \<Rightarrow> jsval + 'u route" where
  "Route_catch flt cb self =
     (if steps self = []
      then Inl (RouteError ''Can NOT apply a `catch` error handler middleware at this stage'')
      else
        let lastStep = last (steps self);
            args = \<lparr>cfilter = (case flt of None \<Rightarrow> ErrorClass ''Error'' | Some f \<Rightarrow> f),
                    ccallback = cb\<rparr>
        in Inr (set_slot_catch (slot_catch self lastStep @ [args]) lastStep self))"

subsection \<open>build\<close>

definition noop :: "'u step_fn" where
  "noop rr = (Returns (Plain Undefined), rr)"

text \<open>
  The first half of \<open>build\<close>: the route after the implicit last step is added. The
  function that \<open>build\<close> returns is \<open>callback\<close> below; it reads the route when it is called.
\<close>

definition build :: "(string \<Rightarrow> nat option) \<Rightarrow> 'u route \<Rightarrow> jsval + 'u route" where
  "build ToNumber self =
     (if steps self \<noteq> [] \<and> slot_name (last (steps self)) \<noteq> ''noop''
      then addStep ToNumber (Named ''noop'') noop self
      else Inr self)"

section \<open>Running a route\<close>

text \<open>
  The promise that \<open>callback\<close> builds is a linear chain, so its run is a fold over the
  links: each link sees the state the chain is in (fulfilled with a value, rejected with
  an error, or cancelled), the request and the trace of the calls made so far. \<open>then\<close>
  runs its function on a fulfilled chain only, \<open>catch\<close> on a rejected one only, and a
  cancelled chain runs neither. The functions are taken to settle: a step that returns a
  promise counts as returning the value, or throwing the error, the promise settles with.
\<close>

datatype 'u pstate = Fulfilled "'u candidate" | Rejected jsval | Cancelled

datatype this_binding = ReqContext | ResWrapper

datatype event =
    CallStep string this_binding
  | CallCatch nat jsval
  | CallResponseFn string this_binding
  | CallNext jsval

record 'u run =
  promise :: "'u pstate"
  rr :: "'u reqres"
  trace :: "event list"

definition settle :: "'u outcome \<Rightarrow> 'u pstate" where
  "settle out = (case out of Returns c \<Rightarrow> Fulfilled c | Throws e \<Rightarrow> Rejected e)"

text \<open>
  \<open>step.fn.call(reqContext, req, res)\<close>. The function of the parser object is the
  body-parsing middleware \<open>reqBodyParser\<close> (outside the sources, a parameter here), which
  reads the \<open>$reqDataParser\<close> of the route it runs for.
\<close>

definition step_fn_of ::
  "('u parser option \<Rightarrow> 'u step_fn) \<Rightarrow> 'u route \<Rightarrow> 'u slot \<Rightarrow> 'u step_fn" where
  "step_fn_of reqBodyParser self s =
     (case s of ParserRef \<Rightarrow> reqBodyParser (reqDataParser self) | Step st \<Rightarrow> fn st)"

text \<open>
  The function given to \<open>promise.then\<close> for one step. \<open>promise.cancel()\<close> cancels the
  chain when cancellation is enabled in the promise library; when it is not, the call
  only warns and returns \<open>undefined\<close>, which fulfils the link.
\<close>

definition then_step ::
  "bool \<Rightarrow> ('u parser option \<Rightarrow> 'u step_fn) \<Rightarrow> 'u route \<Rightarrow> 'u slot \<Rightarrow> 'u run \<Rightarrow> 'u run" where
  "then_step cancellation reqBodyParser self step p =
     (case promise p of
        Fulfilled resCandidate \<Rightarrow>
          (case resCandidate of
             Resp r \<Rightarrow>
               (case responseFn r (rr p) of
                  (Some e, rr1) \<Rightarrow>
                    \<lparr>promise = Rejected e, rr = rr1,
                     trace = trace p @ [CallResponseFn (label r) ResWrapper]\<rparr>
                | (None, rr1) \<Rightarrow>
                    \<lparr>promise = (if cancellation then Cancelled else Fulfilled (Plain Undefined)),
                     rr = rr1,
                     trace = trace p @ [CallResponseFn (label r) ResWrapper]\<rparr>)
           | Plain v \<Rightarrow>
               (case step_fn_of reqBodyParser self step (rr p) of
                  (out, rr1) \<Rightarrow>
                    \<lparr>promise = settle out, rr = rr1,
                     trace = trace p @ [CallStep (slot_name step) ReqContext]\<rparr>))
      | Rejected e \<Rightarrow> p
      | Cancelled \<Rightarrow> p)"

text \<open>\<open>promise.catch(filter, function(err) { return cb(err, req, res); })\<close>\<close>

definition promise_catch :: "nat \<Rightarrow> filter \<Rightarrow> 'u catch_fn \<Rightarrow> 'u run \<Rightarrow> 'u run" where
  "promise_catch index flt f p =
     (case promise p of
        Rejected e \<Rightarrow>
          if matches flt e
          then (case f e (rr p) of
                  (out, rr1) \<Rightarrow>
                    \<lparr>promise = settle out, rr = rr1, trace = trace p @ [CallCatch index e]\<rparr>)
          else p
      | _ \<Rightarrow> p)"

function applyCatchList :: "'u run \<Rightarrow> 'u catch_entry list \<Rightarrow> nat \<Rightarrow> 'u run" where
  "applyCatchList p catchList index =
     (if int index > int (length catchList) - 1 then p
      else case ccallback (catchList ! index) of
             None \<Rightarrow> p
           | Some f \<Rightarrow>
               applyCatchList (promise_catch index (cfilter (catchList ! index)) f p)
                 catchList (index + 1))"
  by pat_completeness auto
termination
  by (relation "measure (\<lambda>(p, catchList, index). length catchList - index)") auto

declare applyCatchList.simps [simp del]

definition link ::
  "bool \<Rightarrow> ('u parser option \<Rightarrow> 'u step_fn) \<Rightarrow> 'u route \<Rightarrow> 'u run \<Rightarrow> 'u slot \<Rightarrow> 'u run" where
  "link cancellation reqBodyParser self p step =
     applyCatchList (then_step cancellation reqBodyParser self step p) (slot_catch self step) 0"

text \<open>\<open>promise.catch(next)\<close>\<close>

definition catch_next :: "'u catch_fn \<Rightarrow> 'u run \<Rightarrow> 'u run" where
  "catch_next next p =
     (case promise p of
        Rejected e \<Rightarrow>
          (case next e (rr p) of
             (out, rr1) \<Rightarrow> \<lparr>promise = settle out, rr = rr1, trace = trace p @ [CallNext e]\<rparr>)
      | _ \<Rightarrow> p)"

text \<open>
  Modelled from the spec: \<open>Response.wrap\<close> of \<open>lib/response.js\<close>, which is not among the
  sources. The wrapper decorates the response for the one request and refers to the
  route that owns it (\<open>wrappedBy\<close>). \<open>start\<close> is the chain \<open>Promise.resolve()\<close> with the
  response wrapped and \<open>req.routeUID\<close> set.
\<close>

definition start :: "'u route \<Rightarrow> 'u reqres \<Rightarrow> 'u run" where
  "start self req =
     \<lparr>promise = Fulfilled (Plain Undefined),
      rr = req\<lparr>wrappedBy := Some (route_uid self), routeUID := Some (route_uid self)\<rparr>,
      trace = []\<rparr>"

text \<open>
  The function \<open>build\<close> returns. \<open>next\<close> is \<open>None\<close> when the third argument is not a
  function.
\<close>

definition callback ::
  "bool \<Rightarrow> ('u parser option \<Rightarrow> 'u step_fn) \<Rightarrow> 'u route \<Rightarrow> 'u reqres \<Rightarrow> 'u catch_fn option
     \<Rightarrow> 'u run" where
  "callback cancellation reqBodyParser self req next =
     (if steps self = []
      then (start self req)
             \<lparr>promise :=
                Rejected (RouteError (''Route '' @ options_url self @ '' not implemented''))\<rparr>
      else
        let p = foldl (link cancellation reqBodyParser self) (start self req) (steps self)
        in case next of None \<Rightarrow> p | Some f \<Rightarrow> catch_next f p)"

section \<open>The application's listeners\<close>

text \<open>
  A listener is a function; what the code does with it depends on the event it is called
  for. A listener of \<open>unknown-error\<close> is given the error and a callback, and is described
  by the values it passes to the callback, in order; a listener of \<open>error-response\<close> is
  given the error and the response and completes or fails; any other listener only
  observes.
\<close>

datatype 'u listener =
    Hook "jsval \<Rightarrow> jsval list"
  | Render "jsval \<Rightarrow> 'u reqres \<Rightarrow> jsval option \<times> 'u reqres"
  | Observer string

record 'u app =
  listeners :: "string \<Rightarrow> 'u listener list"

definition listenerCount :: "'u app \<Rightarrow> string \<Rightarrow> nat" where
  "listenerCount a event = length (listeners a event)"

text \<open>\<open>EventEmitter.prototype.on\<close>, which \<open>App.prototype.on\<close> overrides and calls.\<close>

definition super_on :: "string \<Rightarrow> 'u listener \<Rightarrow> 'u app \<Rightarrow> 'u app" where
  "super_on event l a = a\<lparr>listeners := (listeners a)(event := listeners a event @ [l])\<rparr>"

text \<open>
  \<open>addListener\<close> of the event emitter is that same function. \<open>App\<close> inherits it and
  does not override it.
\<close>

definition addListener :: "string \<Rightarrow> 'u listener \<Rightarrow> 'u app \<Rightarrow> 'u app" where
  "addListener event l a = super_on event l a"

definition Error :: "string \<Rightarrow> jsval" where
  "Error msg = Obj (newError [''Error'', ''Object''] None msg)"

definition on :: "string \<Rightarrow> 'u listener \<Rightarrow> 'u app \<Rightarrow> jsval + 'u app" where
  "on event l a =
     (if event = ''unknown-error'' \<and> listenerCount a event \<ge> 1
      then Inl (Error ''You can assign only single listener for the event'')
      else Inr (super_on event l a))"

text \<open>
  The default listener of \<open>error-response\<close> that \<open>$init\<close> registers: \<open>res.json(err)\<close>
  unless the headers are sent already.
\<close>

definition defaultErrorResponse :: "'u listener" where
  "defaultErrorResponse =
     Render (\<lambda>err res. (None, if \<not> headersSent res
                               then res\<lparr>headersSent := True, body := Some err\<rparr> else res))"

section \<open>The error handler\<close>

text \<open>
  The handler works on the response of the request and leaves a log of what it did, in
  order: the call of \<open>next\<close>, the stamps, the events it emitted to listeners, the
  status it set and the series of \<open>error-response\<close> it started.
\<close>

datatype action =
    Next
  | SetOrigin "string option"
  | SetUID "string option"
  | Emit string jsval
  | ResStatus "nat option"
  | EmitAsyncSeries string jsval

record 'u handled =
  hres :: "'u reqres"
  hlog :: "action list"

text \<open>
  Modelled from the spec: \<open>setOrigin\<close>, \<open>setUID\<close> and \<open>ServiceError.buildFrom\<close> of
  \<open>lib/error\<close>. The first two stamp the error with the route identifier and the request
  identifier; the third coerces any error into an internal fault built from the
  message of the error.
\<close>

definition setOrigin :: "string option \<Rightarrow> jsobj \<Rightarrow> jsobj" where
  "setOrigin v ob = ob\<lparr>origin := v\<rparr>"

definition setUID :: "string option \<Rightarrow> jsobj \<Rightarrow> jsobj" where
  "setUID v ob = ob\<lparr>uid := v\<rparr>"

definition buildFrom :: "jsval \<Rightarrow> jsval" where
  "buildFrom err = Obj (ServiceError (case err of Obj ob \<Rightarrow> message ob | _ \<Rightarrow> []))"

text \<open>
  \<open>emitAsyncSeries\<close> of the event emitter: the listeners run one after the other, each
  awaited, and the first failure ends the series.
\<close>

fun emitAsyncSeries ::
  "'u listener list \<Rightarrow> jsval \<Rightarrow> 'u reqres \<Rightarrow> jsval option \<times> 'u reqres" where
  "emitAsyncSeries [] err res = (None, res)"
| "emitAsyncSeries (l # ls) err res =
     (case l of
        Render f \<Rightarrow>
          (case f err res of
             (Some e, res1) \<Rightarrow> (Some e, res1)
           | (None, res1) \<Rightarrow> emitAsyncSeries ls err res1)
      | _ \<Rightarrow> emitAsyncSeries ls err res)"

text \<open>
  \<open>emit('unknown-error', err, cb)\<close>: the values the listeners pass to \<open>cb\<close>. The listeners
  are taken to call \<open>cb\<close> before they return and not to catch what it throws.
\<close>

definition emit_unknown_error :: "'u listener list \<Rightarrow> jsval \<Rightarrow> jsval list" where
  "emit_unknown_error ls err =
     concat (map (\<lambda>l. case l of Hook f \<Rightarrow> f err | _ \<Rightarrow> []) ls)"

text \<open>
  \<open>emit('error', err)\<close> of the event emitter. With no listener of \<open>error\<close> it throws: the
  error itself when it is an \<open>Error\<close>, a new \<open>Error\<close> that reports the event otherwise.
\<close>

definition unhandled :: "jsval \<Rightarrow> jsval" where
  "unhandled err = (if instanceof err ''Error'' then err else Error ''Unhandled error event'')"

definition emit_error :: "'u app \<Rightarrow> jsval \<Rightarrow> 'u handled \<Rightarrow> jsval + 'u handled" where
  "emit_error a err h =
     (if listeners a ''error'' = [] then Inl (unhandled err)
      else Inr (h\<lparr>hlog := hlog h @ [Emit ''error'' err]\<rparr>))"

definition stamp :: "'u reqres \<Rightarrow> jsval \<Rightarrow> jsval" where
  "stamp req err =
     (case err of Obj ob \<Rightarrow> Obj (setUID (UID req) (setOrigin (routeUID req) ob)) | _ \<Rightarrow> err)"

text \<open>
  How a call of the handler ends: it returns, it throws, or it returns a promise that is
  rejected.
\<close>

datatype completion = Returned | Threw jsval | Rejects jsval

text \<open>
  The end of the branch for a \<open>RequestError\<close>: \<open>res.status(err.code)\<close>, then the
  listeners of \<open>error-response\<close> in a series, and the event \<open>error\<close> when one of them
  fails; that \<open>emit\<close> runs in a handler of the promise, so what it throws rejects the
  promise the handler returns.
\<close>

definition render :: "'u app \<Rightarrow> jsval \<Rightarrow> 'u handled \<Rightarrow> completion \<times> 'u handled" where
  "render a err h =
     (case emitAsyncSeries (listeners a ''error-response'') err
             ((hres h)\<lparr>status := err_code err\<rparr>) of
        (failure, res1) \<Rightarrow>
          let h1 = \<lparr>hres = res1,
                    hlog = hlog h @ [ResStatus (err_code err),
                                     EmitAsyncSeries ''error-response'' err]\<rparr>
          in case failure of
               None \<Rightarrow> (Returned, h1)
             | Some e \<Rightarrow>
                 (case emit_error a e h1 of
                    Inl t \<Rightarrow> (Rejects t, h1)
                  | Inr h2 \<Rightarrow> (Returned, h2)))"

function errorHandler :: "'u app \<Rightarrow> jsval \<Rightarrow> 'u handled \<Rightarrow> completion \<times> 'u handled" where
  "errorHandler a err h =
     (if err = Undefined then (Returned, h\<lparr>hlog := hlog h @ [Next]\<rparr>)
      else if err = Null
      then errorHandler a
             (Obj (ServiceError ''Got error of type NULL in the Error Hanlder middleware'')) h
      else if instanceof err ''RequestError''
      then
        if instanceof err ''ServiceError''
        then
          let err1 = stamp (hres h) err;
              h1 = h\<lparr>hlog := hlog h @ [SetOrigin (routeUID (hres h)), SetUID (UID (hres h))]\<rparr>
          in case emit_error a err1 h1 of
               Inl t \<Rightarrow> (Threw t, h1)
             | Inr h2 \<Rightarrow> render a err1 h2
        else render a err h
      else if errorProtoAbove err
      then
        if listenerCount a ''unknown-error'' \<noteq> 0
        then foldl (\<lambda>ch error.
                      case fst ch of
                        Threw t \<Rightarrow> ch
                      | _ \<Rightarrow>
                          (case errorHandler a
                                  (if \<not> instanceof error ''RequestError'' then buildFrom error
                                   else error)
                                  (snd ch) of
                             (Threw t, h2) \<Rightarrow> (Threw t, h2)
                           | (_, h2) \<Rightarrow> (Returned, h2)))
               (Returned, h\<lparr>hlog := hlog h @ [Emit ''unknown-error'' err]\<rparr>)
               (emit_unknown_error (listeners a ''unknown-error'') err)
        else errorHandler a (buildFrom err) h
      else if instanceof err ''Error''
      then errorHandler a (buildFrom err) h
      else (Returned, h))"
  by pat_completeness auto
termination
  by (relation "measure (\<lambda>(a, err, h).
        if err \<noteq> Undefined \<and> \<not> instanceof err ''RequestError'' then 1 else 0)")
     (auto simp: instanceof_def ServiceError_def newError_def buildFrom_def)

declare errorHandler.simps [simp del]

section \<open>Invariants of a route\<close>

text \<open>
  What the declarations keep true of a route, and a new route satisfies: the entry of
  status 200 holds at most one schema, and the list \<open>mediaTypes\<close> of the parser object
  has no duplicate and lists exactly the own keys of \<open>contentTypes\<close>, and besides them
  only \<open>__proto__\<close>, and that only when the prototype of \<open>contentTypes\<close> was replaced.
\<close>

definition responses_inv :: "'u route \<Rightarrow> bool" where
  "responses_inv self =
     (case responses self (Some 200) of None \<Rightarrow> True | Some l \<Rightarrow> length l \<le> 1)"

definition parser_inv :: "'u route \<Rightarrow> bool" where
  "parser_inv self =
     (case reqDataParser self of
        None \<Rightarrow> True
      | Some p \<Rightarrow>
          distinct (mediaTypes p) \<and>
          dom (contentTypes p) = set (mediaTypes p) - {''__proto__''} \<and>
          (contentTypesProto p = None \<longrightarrow> ''__proto__'' \<notin> set (mediaTypes p)))"

text \<open>
  A parser object whose \<open>contentTypes\<close> still works as a dictionary: its prototype is
  \<open>Object.prototype\<close> and no own property hides \<open>hasOwnProperty\<close>.
\<close>

definition ordinary :: "'u route \<Rightarrow> bool" where
  "ordinary self =
     (case reqDataParser self of
        None \<Rightarrow> True
      | Some p \<Rightarrow> contentTypesProto p = None \<and> contentTypes p ''hasOwnProperty'' = None)"

text \<open>
  The routes the declarations build. A new route has no step, no response schema and no
  parser object (the constructor then declares the content types of the configuration
  and the response \<open>ServiceError\<close>, with the methods below).
\<close>

inductive declared :: "'u route \<Rightarrow> bool" where
  new: "steps self = [] \<Longrightarrow> responses self = Map.empty \<Longrightarrow> reqDataParser self = None \<Longrightarrow>
        declared self"
| accepts: "declared self \<Longrightarrow> acceptsContentType type options prs self = Inr r \<Longrightarrow> declared r"
| rejects: "declared self \<Longrightarrow> declared (rejectsContentType type self)"
| responds: "declared self \<Longrightarrow> respondsWith descriptor self = Inr r \<Longrightarrow> declared r"
| main: "declared self \<Longrightarrow> declared (main f self)"
| validate: "declared self \<Longrightarrow> validate f self = Inr r \<Longrightarrow> declared r"
| addStep: "declared self \<Longrightarrow> addStep ToNumber nm f self = Inr r \<Longrightarrow> declared r"
| catch: "declared self \<Longrightarrow> Route_catch flt cb self = Inr r \<Longrightarrow> declared r"
| build: "declared self \<Longrightarrow> build ToNumber self = Inr r \<Longrightarrow> declared r"

text \<open>
  The accepted content types of a route: the list the body parser matches the request
  against, and the own entry of a type in \<open>contentTypes\<close>.
\<close>

definition acceptedTypes :: "'u route \<Rightarrow> string list" where
  "acceptedTypes self = (case reqDataParser self of None \<Rightarrow> [] | Some p \<Rightarrow> mediaTypes p)"

definition contentType :: "'u route \<Rightarrow> string \<Rightarrow> ct_entry option" where
  "contentType self type =
     (case reqDataParser self of None \<Rightarrow> None | Some p \<Rightarrow> contentTypes p type)"

text \<open>The schemas registered for a status code, none when the code has no entry.\<close>

definition registered :: "'u route \<Rightarrow> nat option \<Rightarrow> jsval list" where
  "registered self c = (case responses self c of None \<Rightarrow> [] | Some l \<Rightarrow> l)"

section \<open>Example data\<close>

text \<open>A route with no step yet, a request and an application, for the concrete runs below.\<close>

definition example_route :: "unit route" where
  "example_route =
     \<lparr>options_url = ''/users'', options_type = ''post'', route_uid = ''postUsers'',
      steps = [], responses = Map.empty, reqDataParser = None\<rparr>"

definition example_request :: "unit reqres" where
  "example_request =
     \<lparr>routeUID = None, UID = Some ''req-1'', wrappedBy = None, status = None,
      headersSent = False, body = None, user = ()\<rparr>"

definition example_app :: "unit app" where
  "example_app = \<lparr>listeners = (\<lambda>event. [])\<rparr>"

definition example_error :: "string \<Rightarrow> jsval" where
  "example_error msg = Obj (newError [''RequestError'', ''Error'', ''Object''] (Some 400) msg)"


definition returning :: "unit candidate \<Rightarrow> unit step_fn" where
  "returning c req = (Returns c, req)"

definition handling :: "unit candidate \<Rightarrow> unit catch_fn" where
  "handling c e req = (Returns c, req)"

definition redirect :: "unit response" where
  "redirect = Response ''redirect'' (\<lambda>res. (None, res\<lparr>status := Some 302, headersSent := True\<rparr>))"

definition broken :: "unit response" where
  "broken = Response ''broken'' (\<lambda>res. (Some (TypeError ''render''), res))"

definition noop_step :: "unit slot" where
  "noop_step = Step \<lparr>name = ''noop'', fn = noop, catch = []\<rparr>"

definition audit_step :: "unit slot" where
  "audit_step = Step \<lparr>name = ''audit'', fn = returning (Plain (Prim ''audited'')), catch = []\<rparr>"

text \<open>A first step that answers with a \<open>Response\<close>, then the main step.\<close>

definition redirect_route :: "unit route" where
  "redirect_route =
     example_route\<lparr>steps :=
       [Step \<lparr>name = ''auth'', fn = returning (Resp redirect), catch = []\<rparr>,
        Step \<lparr>name = ''main'', fn = returning (Plain (Prim ''done'')), catch = []\<rparr>,
        noop_step]\<rparr>"

text \<open>
  The same with a \<open>Response\<close> whose callback throws, a catch on the main step and a
  step after it.
\<close>

definition broken_route :: "unit route" where
  "broken_route =
     example_route\<lparr>steps :=
       [Step \<lparr>name = ''auth'', fn = returning (Resp broken), catch = []\<rparr>,
        Step \<lparr>name = ''main'', fn = returning (Plain (Prim ''done'')),
              catch = [\<lparr>cfilter = ErrorClass ''Error'',
                        ccallback = Some (handling (Plain (Prim ''recovered'')))\<rparr>]\<rparr>,
        audit_step, noop_step]\<rparr>"





text \<open>
  An application with the default listener of \<open>error-response\<close> alone, and one that has
  a listener of \<open>error\<close> as well.
\<close>

definition logging_app :: "unit app" where
  "logging_app =
     \<lparr>listeners = (\<lambda>event. if event = ''error-response'' then [defaultErrorResponse]
                           else if event = ''error'' then [Observer ''log''] else [])\<rparr>"

definition default_app :: "unit app" where
  "default_app =
     \<lparr>listeners = (\<lambda>event. if event = ''error-response'' then [defaultErrorResponse] else [])\<rparr>"


section \<open>A route without steps\<close>

text \<open>
  C5. When the list of steps is empty at the time the compiled function is called, the
  call is rejected with the route error whose message names the URL of the route. No
  step, no catch handler and not even \<open>next\<close> is called (the trace is empty), and of the
  response only the wrapper is set up: status, headers and body are as they were.
\<close>

theorem C5_not_implemented:
  assumes "steps self = []"
  shows "callback cancellation reqBodyParser self req next =
           \<lparr>promise = Rejected (RouteError (''Route '' @ options_url self @ '' not implemented'')),
            rr = req\<lparr>wrappedBy := Some (route_uid self), routeUID := Some (route_uid self)\<rparr>,
            trace = []\<rparr>"
  using assms by (simp add: callback_def start_def)

theorem C5_not_implemented_witness:
  "steps example_route = [] \<and>
   callback True (\<lambda>p. noop) example_route example_request
       (Some (\<lambda>e r. (Returns (Plain Undefined), r))) =
     \<lparr>promise = Rejected (RouteError ''Route /users not implemented''),
      rr = example_request\<lparr>wrappedBy := Some ''postUsers'', routeUID := Some ''postUsers''\<rparr>,
      trace = []\<rparr>"
proof -
  have e: "steps example_route = []" by (simp add: example_route_def)
  show ?thesis
    using e C5_not_implemented [OF e, of True "\<lambda>p. noop" example_request
        "Some (\<lambda>e r. (Returns (Plain Undefined), r))"]
    by (simp add: example_route_def)
qed

section \<open>The listener of unknown-error\<close>

text \<open>
  C10, as the code has it. \<open>on\<close> refuses a listener of \<open>unknown-error\<close> when one is
  registered already; for any other event it always registers the listener, and leaves
  the listeners of \<open>unknown-error\<close> alone. So an application that has at most one
  listener of \<open>unknown-error\<close> still has at most one after any call of \<open>on\<close>. The
  inherited \<open>addListener\<close> has no such guard: it adds a listener of \<open>unknown-error\<close>
  whatever the number of those registered.
\<close>

theorem C10_single_unknown_error_listener:
  "(listenerCount a ''unknown-error'' \<ge> 1 \<longrightarrow>
      on ''unknown-error'' l a = Inl (Error ''You can assign only single listener for the event'')) \<and>
   (event \<noteq> ''unknown-error'' \<longrightarrow>
      on event l a = Inr (super_on event l a) \<and>
      listenerCount (super_on event l a) event = listenerCount a event + 1 \<and>
      listenerCount (super_on event l a) ''unknown-error'' = listenerCount a ''unknown-error'') \<and>
   (listenerCount a ''unknown-error'' \<le> 1 \<longrightarrow>
      (\<forall>a'. on event l a = Inr a' \<longrightarrow> listenerCount a' ''unknown-error'' \<le> 1)) \<and>
   listenerCount (addListener ''unknown-error'' l a) ''unknown-error'' =
     listenerCount a ''unknown-error'' + 1"
  by (cases "listeners a ''unknown-error''")
     (auto simp: on_def super_on_def addListener_def listenerCount_def)

theorem C10_single_unknown_error_listener_witness:
  "(\<exists>a1. on ''unknown-error'' (Hook (\<lambda>e. [e])) example_app = Inr a1 \<and>
      listenerCount a1 ''unknown-error'' = 1 \<and>
      on ''unknown-error'' (Hook (\<lambda>e. [])) a1 =
        Inl (Error ''You can assign only single listener for the event'') \<and>
      on ''error'' (Observer ''log'') a1 = Inr (super_on ''error'' (Observer ''log'') a1))"
proof -
  let ?a1 = "super_on ''unknown-error'' (Hook (\<lambda>e. [e])) example_app"
  have c: "listenerCount ?a1 ''unknown-error'' = 1"
    by (simp add: super_on_def listenerCount_def example_app_def)
  have 1: "on ''unknown-error'' (Hook (\<lambda>e. [e])) example_app = Inr ?a1"
    by (simp add: on_def listenerCount_def example_app_def)
  have n: "''error'' \<noteq> ''unknown-error''" by simp
  from C10_single_unknown_error_listener [of ?a1 "Hook (\<lambda>e. [])" "''error''"] c
  have 2: "on ''unknown-error'' (Hook (\<lambda>e. [])) ?a1 =
        Inl (Error ''You can assign only single listener for the event'')" by simp
  from C10_single_unknown_error_listener [of ?a1 "Observer ''log''" "''error''"] n
  have 3: "on ''error'' (Observer ''log'') ?a1 = Inr (super_on ''error'' (Observer ''log'') ?a1)"
    by blast
  show ?thesis using 1 2 3 c by blast
qed

text \<open>
  The claim C10 as stated fails: after one listener of \<open>unknown-error\<close> is registered
  with \<open>on\<close>, the inherited \<open>addListener\<close> registers a second one.
\<close>

theorem C10_counterexample:
  "(case on ''unknown-error'' (Hook (\<lambda>e. [e])) example_app of
      Inl e \<Rightarrow> 0
    | Inr a1 \<Rightarrow>
        listenerCount (addListener ''unknown-error'' (Hook (\<lambda>e. [])) a1) ''unknown-error'') = 2"
  by (simp add: on_def super_on_def addListener_def listenerCount_def example_app_def)

section \<open>Declaring steps\<close>

lemma slot_name_Step: "slot_name (Step st) = name st"
  by (simp add: slot_name_def)

lemma steps_push: "steps (push s self) = steps self @ [s]"
  by (simp add: push_def)

lemma find_slot_name:
  "(find (\<lambda>step. slot_name step = s) xs \<noteq> None) = (s \<in> slot_name ` set xs)"
  by (induction xs) auto

lemma addStep_Named:
  "addStep tn (Named s) f self =
     (if s \<in> slot_name ` set (steps self)
      then Inl (RouteError ''Route`s middleware name must be unique'')
      else Inr (push (Step \<lparr>name = s, fn = f, catch = []\<rparr>) self))"
  unfolding addStep_def name_arg.case find_slot_name by simp

lemma respondsWith_eq:
  assumes "d \<noteq> Undefined" "d \<noteq> Null" "resolve d = (schema, c)"
  shows "respondsWith d self =
           Inr (self\<lparr>responses := (responses self)(c \<mapsto>
                  (if c = Some 200 \<and> (case responses self c of None \<Rightarrow> [] | Some l \<Rightarrow> l) \<noteq> []
                   then schema # tl (case responses self c of None \<Rightarrow> [] | Some l \<Rightarrow> l)
                   else (case responses self c of None \<Rightarrow> [] | Some l \<Rightarrow> l) @ [schema]))\<rparr>)"
  using assms by (simp add: respondsWith_def Let_def)



text \<open>
  C6, as the code has it. \<open>build\<close> adds the implicit last step \<open>noop\<close> when the route
  has a step and its last step is not named \<open>noop\<close>: it succeeds when no step has that
  name, and fails with the error of a duplicate name when an earlier step has it. A route
  without steps is left without steps, and a route whose last step is named \<open>noop\<close> is
  left as it is. When the route has a step, a build that succeeds leaves a chain that
  ends with a step named \<open>noop\<close>.
\<close>

theorem C6_build:
  "(steps self = [] \<longrightarrow> build tn self = Inr self) \<and>
   (steps self \<noteq> [] \<and> slot_name (last (steps self)) = ''noop'' \<longrightarrow> build tn self = Inr self) \<and>
   (steps self \<noteq> [] \<and> ''noop'' \<notin> slot_name ` set (steps self) \<longrightarrow>
      build tn self = Inr (push (Step \<lparr>name = ''noop'', fn = noop, catch = []\<rparr>) self)) \<and>
   (steps self \<noteq> [] \<and> slot_name (last (steps self)) \<noteq> ''noop'' \<and>
    ''noop'' \<in> slot_name ` set (steps self) \<longrightarrow>
      build tn self = Inl (RouteError ''Route`s middleware name must be unique'')) \<and>
   (\<forall>r. steps self \<noteq> [] \<and> build tn self = Inr r \<longrightarrow>
      steps r \<noteq> [] \<and> slot_name (last (steps r)) = ''noop'')"
proof -
  have l: "slot_name (last (steps self)) \<noteq> ''noop''"
    if "steps self \<noteq> []" "''noop'' \<notin> slot_name ` set (steps self)"
  proof
    assume "slot_name (last (steps self)) = ''noop''"
    moreover have "slot_name (last (steps self)) \<in> slot_name ` set (steps self)"
      using that(1) by (intro imageI last_in_set)
    ultimately show False using that(2) by simp
  qed
  have 1: "steps self = [] \<longrightarrow> build tn self = Inr self"
    by (simp add: build_def)
  have 2: "steps self \<noteq> [] \<and> slot_name (last (steps self)) = ''noop'' \<longrightarrow> build tn self = Inr self"
    by (simp add: build_def)
  have 3: "steps self \<noteq> [] \<and> ''noop'' \<notin> slot_name ` set (steps self) \<longrightarrow>
      build tn self = Inr (push (Step \<lparr>name = ''noop'', fn = noop, catch = []\<rparr>) self)"
    using l by (simp add: build_def addStep_Named)
  have 4: "steps self \<noteq> [] \<and> slot_name (last (steps self)) \<noteq> ''noop'' \<and>
    ''noop'' \<in> slot_name ` set (steps self) \<longrightarrow>
      build tn self = Inl (RouteError ''Route`s middleware name must be unique'')"
    by (simp add: build_def addStep_Named)
  have 5: "steps r \<noteq> [] \<and> slot_name (last (steps r)) = ''noop''"
    if "steps self \<noteq> []" "build tn self = Inr r" for r
  proof (cases "slot_name (last (steps self)) = ''noop''")
    case True
    with that show ?thesis by (simp add: build_def)
  next
    case False
    with that have "r = push (Step \<lparr>name = ''noop'', fn = noop, catch = []\<rparr>) self"
      by (simp add: build_def addStep_Named split: if_splits)
    then show ?thesis by (simp add: steps_push slot_name_Step)
  qed
  from 1 2 3 4 5 show ?thesis by blast
qed

lemma example_main_names:
  "slot_name ` set (steps (main noop (example_route :: unit route))) = {''main''}"
  by (simp add: main_def steps_push example_route_def slot_name_Step)

theorem C6_build_witness:
  "build (\<lambda>s. None) (main noop example_route) =
     Inr (push (Step \<lparr>name = ''noop'', fn = noop, catch = []\<rparr>) (main noop example_route)) \<and>
   map slot_name
     (steps (push (Step \<lparr>name = ''noop'', fn = noop, catch = []\<rparr>) (main noop example_route)))
     = [''main'', ''noop'']"
proof -
  have h: "steps (main noop example_route) \<noteq> [] \<and>
           ''noop'' \<notin> slot_name ` set (steps (main noop (example_route :: unit route)))"
    by (simp add: example_main_names) (simp add: main_def steps_push)
  have n: "map slot_name
     (steps (push (Step \<lparr>name = ''noop'', fn = noop, catch = []\<rparr>) (main noop example_route)))
     = [''main'', ''noop'']"
    by (simp add: main_def steps_push example_route_def slot_name_Step)
  show ?thesis
    using h n C6_build [of "main noop example_route" "\<lambda>s. None"] by blast
qed

text \<open>
  The claim C6 as stated fails for a route without steps: no step is its last step, yet
  \<open>build\<close> adds nothing and the chain is empty afterwards.
\<close>

theorem C6_counterexample:
  "build (\<lambda>s. None) example_route = Inr example_route \<and> steps example_route = []"
  by (simp add: build_def example_route_def)




section \<open>Response schemas\<close>

lemma respondsWith_registered:
  assumes "d \<noteq> Undefined" "d \<noteq> Null"
  shows "\<exists>r. respondsWith d self = Inr r \<and>
           registered r (snd (resolve d)) =
             (if snd (resolve d) = Some 200 \<and> registered self (Some 200) \<noteq> []
              then fst (resolve d) # tl (registered self (Some 200))
              else registered self (snd (resolve d)) @ [fst (resolve d)]) \<and>
           (\<forall>c. c \<noteq> snd (resolve d) \<longrightarrow> registered r c = registered self c)"
proof (cases "resolve d")
  case (Pair schema c)
  show ?thesis
    using assms by (simp add: respondsWith_eq [OF assms Pair] Pair registered_def)
qed

lemma new_responses_inv: "responses self = Map.empty \<Longrightarrow> responses_inv self"
  by (simp add: responses_inv_def)

lemma respondsWith_fails:
  "d = Undefined \<or> d = Null \<Longrightarrow> \<exists>e. respondsWith d self = Inl e"
  by (auto simp: respondsWith_def)

lemma respondsWith_responses_inv:
  assumes "responses_inv self" "respondsWith d self = Inr r"
  shows "responses_inv r"
proof -
  from assms(2) have nn: "d \<noteq> Undefined" "d \<noteq> Null"
    by (auto simp: respondsWith_def)
  from respondsWith_registered [OF nn, of self] assms(2)
  have reg: "registered r (snd (resolve d)) =
             (if snd (resolve d) = Some 200 \<and> registered self (Some 200) \<noteq> []
              then fst (resolve d) # tl (registered self (Some 200))
              else registered self (snd (resolve d)) @ [fst (resolve d)])"
    and other: "\<And>c. c \<noteq> snd (resolve d) \<Longrightarrow> registered r c = registered self c"
    by auto
  have i: "length (registered self (Some 200)) \<le> 1"
    using assms(1) by (simp add: responses_inv_def registered_def split: option.splits)
  have len: "length (registered r (Some 200)) \<le> 1"
  proof (cases "snd (resolve d) = Some 200")
    case True
    then show ?thesis using reg i by (cases "registered self (Some 200)") auto
  next
    case False
    then show ?thesis using other [of "Some 200"] i by simp
  qed
  then show ?thesis
    by (simp add: responses_inv_def registered_def split: option.splits)
qed

lemma respondsWith_twice:
  assumes "responses_inv self"
    and "respondsWith d1 self = Inr r1" and "respondsWith d2 r1 = Inr r2"
  shows "(snd (resolve d1) = Some 200 \<and> snd (resolve d2) = Some 200 \<longrightarrow>
            registered r2 (Some 200) = [fst (resolve d2)]) \<and>
         (snd (resolve d1) = snd (resolve d2) \<and> snd (resolve d2) \<noteq> Some 200 \<longrightarrow>
            registered r2 (snd (resolve d2)) =
              registered self (snd (resolve d2)) @ [fst (resolve d1), fst (resolve d2)]) \<and>
         responses_inv r2"
proof -
  from assms(2) have n1: "d1 \<noteq> Undefined" "d1 \<noteq> Null"
    by (auto simp: respondsWith_def)
  from assms(3) have n2: "d2 \<noteq> Undefined" "d2 \<noteq> Null"
    by (auto simp: respondsWith_def)
  from respondsWith_registered [OF n1, of self] assms(2)
  have reg1: "registered r1 (snd (resolve d1)) =
             (if snd (resolve d1) = Some 200 \<and> registered self (Some 200) \<noteq> []
              then fst (resolve d1) # tl (registered self (Some 200))
              else registered self (snd (resolve d1)) @ [fst (resolve d1)])"
    by auto
  from respondsWith_registered [OF n2, of r1] assms(3)
  have reg2: "registered r2 (snd (resolve d2)) =
             (if snd (resolve d2) = Some 200 \<and> registered r1 (Some 200) \<noteq> []
              then fst (resolve d2) # tl (registered r1 (Some 200))
              else registered r1 (snd (resolve d2)) @ [fst (resolve d2)])"
    by auto
  have inv1: "responses_inv r1"
    using assms(1,2) by (rule respondsWith_responses_inv)
  have inv2: "responses_inv r2"
    using inv1 assms(3) by (rule respondsWith_responses_inv)
  have len1: "length (registered r1 (Some 200)) \<le> 1"
    using inv1 by (simp add: responses_inv_def registered_def split: option.splits)
  have a: "registered r2 (Some 200) = [fst (resolve d2)]"
    if "snd (resolve d1) = Some 200" "snd (resolve d2) = Some 200"
  proof -
    have "registered r1 (Some 200) \<noteq> []" using reg1 that(1) by auto
    then show ?thesis
      using reg2 that(2) len1 by (cases "registered r1 (Some 200)") auto
  qed
  have b: "registered r2 (snd (resolve d2)) =
              registered self (snd (resolve d2)) @ [fst (resolve d1), fst (resolve d2)]"
    if "snd (resolve d1) = snd (resolve d2)" "snd (resolve d2) \<noteq> Some 200"
    using reg1 reg2 that by simp
  from a b inv2 show ?thesis by blast
qed

section \<open>Content types\<close>

lemma accepts_get:
  "toLowerCase (options_type self) \<in> {''get'', ''options''} \<Longrightarrow>
   acceptsContentType type options prs self = Inr self"
  by (simp add: acceptsContentType_def)

lemma accepts_ordinary:
  assumes body: "toLowerCase (options_type self) \<notin> {''get'', ''options''}"
    and ord: "ordinary self" and t: "t \<noteq> ''__proto__''"
  shows "\<exists>r. acceptsContentType t options prs self = Inr r \<and>
           options_type r = options_type self \<and>
           contentType r t =
             (case contentType self t of
                None \<Rightarrow> Some \<lparr>ct_options = options(''parser'' := None, ''type'' := None),
                              ct_parser = prs, ct_type = t\<rparr>
              | Some en \<Rightarrow> Some en) \<and>
           acceptedTypes r =
             (if contentType self t = None then acceptedTypes self @ [t]
              else acceptedTypes self) \<and>
           (t \<noteq> ''hasOwnProperty'' \<longrightarrow> ordinary r) \<and>
           (contentType self t \<noteq> None \<longrightarrow> r = self)"
proof (cases "reqDataParser self")
  case None
  with body t show ?thesis
    by (simp add: acceptsContentType_def push_def assign_entry_def contentType_def
        acceptedTypes_def ordinary_def)
next
  case (Some p)
  with body t ord show ?thesis
    by (cases "contentTypes p t")
       (simp_all add: acceptsContentType_def assign_entry_def contentType_def
        acceptedTypes_def ordinary_def)
qed

lemma rejects_facts:
  "options_type (rejectsContentType t self) = options_type self"
  "contentType (rejectsContentType t self) t = None"
  "acceptedTypes (rejectsContentType t self) = remove1 t (acceptedTypes self)"
  "ordinary self \<Longrightarrow> ordinary (rejectsContentType t self)"
  by (auto simp: rejectsContentType_def contentType_def acceptedTypes_def ordinary_def
      split: option.splits)

lemma not_listed:
  assumes "dom m = A" "m x = None"
  shows "x \<notin> A"
proof
  assume "x \<in> A"
  then have "x \<in> dom m" using assms(1) by simp
  then show False using assms(2) by (simp add: domIff)
qed

lemma parser_inv_accepts:
  assumes "parser_inv self" "acceptsContentType type options prs self = Inr r"
  shows "parser_inv r"
proof (cases "toLowerCase (options_type self) \<in> {''get'', ''options''}")
  case True
  with assms show ?thesis by (simp add: acceptsContentType_def)
next
  case False
  show ?thesis
  proof (cases "reqDataParser self")
    case None
    with False assms(2) show ?thesis
      by (auto simp: acceptsContentType_def push_def assign_entry_def parser_inv_def
          split: if_splits)
  next
    case (Some p)
    from assms(1) Some have d: "distinct (mediaTypes p)"
      and dm: "dom (contentTypes p) = set (mediaTypes p) - {''__proto__''}"
      and pr: "contentTypesProto p = None \<longrightarrow> ''__proto__'' \<notin> set (mediaTypes p)"
      by (simp_all add: parser_inv_def)
    show ?thesis
    proof (cases "contentTypesProto p = None \<and> contentTypes p ''hasOwnProperty'' = None \<and>
                  contentTypes p type = None")
      case same: False
      with False Some assms(2) have "r = self"
        by (auto simp: acceptsContentType_def split: if_splits)
      with assms(1) show ?thesis by simp
    next
      case new: True
      let ?e = "\<lparr>ct_options = options(''parser'' := None, ''type'' := None),
                 ct_parser = prs, ct_type = type\<rparr>"
      from new False Some assms(2)
      have r: "r = self\<lparr>reqDataParser :=
                 Some ((assign_entry type ?e p)\<lparr>mediaTypes := mediaTypes p @ [type]\<rparr>)\<rparr>"
        by (simp add: acceptsContentType_def)
      have nl: "type \<notin> set (mediaTypes p)"
      proof (cases "type = ''__proto__''")
        case True
        with pr new show ?thesis by simp
      next
        case False
        from not_listed [OF dm] new have "type \<notin> set (mediaTypes p) - {''__proto__''}"
          by simp
        with False show ?thesis by simp
      qed
      show ?thesis
      proof (cases "type = ''__proto__''")
        case True
        with d dm nl show ?thesis
          by (simp add: r parser_inv_def assign_entry_def)
      next
        case False
        with d dm nl pr new show ?thesis
          by (simp add: r parser_inv_def assign_entry_def insert_Diff_if)
      qed
    qed
  qed
qed

lemma parser_inv_rejects:
  assumes "parser_inv self"
  shows "parser_inv (rejectsContentType type self)"
  using assms
  by (auto simp: rejectsContentType_def parser_inv_def split: option.splits)

lemma parser_inv_accepted:
  assumes "parser_inv self"
  shows "distinct (acceptedTypes self)"
    and "t \<noteq> ''__proto__'' \<Longrightarrow> (t \<in> set (acceptedTypes self)) = (contentType self t \<noteq> None)"
  using assms
  by (auto simp: parser_inv_def acceptedTypes_def contentType_def split: option.splits)

lemma content_type_cycle:
  fixes self :: "'u route"
  assumes body: "toLowerCase (options_type self) \<notin> {''get'', ''options''}"
    and inv: "parser_inv self" and ord: "ordinary self"
    and t: "t \<noteq> ''__proto__''" "t \<noteq> ''hasOwnProperty''"
  shows "\<exists>r1 r3.
           acceptsContentType t o1 p1 self = Inr r1 \<and>
           t \<in> set (acceptedTypes r1) \<and> contentType r1 t \<noteq> None \<and>
           t \<notin> set (acceptedTypes (rejectsContentType t r1)) \<and>
           contentType (rejectsContentType t r1) t = None \<and>
           acceptsContentType t o2 p2 (rejectsContentType t r1) = Inr r3 \<and>
           t \<in> set (acceptedTypes r3) \<and>
           contentType r3 t =
             Some \<lparr>ct_options = o2(''parser'' := None, ''type'' := None),
                   ct_parser = p2, ct_type = t\<rparr> \<and>
           acceptsContentType t o2 p2 r1 = Inr r1 \<and>
           acceptsContentType t o2 p2 r3 = Inr r3"
proof -
  from accepts_ordinary [OF body ord t(1), of o1 p1] t(2)
  obtain r1 where r1: "acceptsContentType t o1 p1 self = Inr r1"
    and b1: "options_type r1 = options_type self"
    and c1: "contentType r1 t \<noteq> None"
    and o1: "ordinary r1"
    by (auto split: option.splits)
  have body1: "toLowerCase (options_type r1) \<notin> {''get'', ''options''}"
    using body by (simp add: b1)
  have i1: "parser_inv r1" using inv r1 by (rule parser_inv_accepts)
  have m1: "t \<in> set (acceptedTypes r1)"
    using c1 by (simp add: parser_inv_accepted(2) [OF i1 t(1)])
  let ?r2 = "rejectsContentType t r1"
  have body2: "toLowerCase (options_type ?r2) \<notin> {''get'', ''options''}"
    using body1 by (simp add: rejects_facts(1))
  have o2: "ordinary ?r2" using o1 by (rule rejects_facts(4))
  have c2: "contentType ?r2 t = None" by (rule rejects_facts(2))
  have m2: "t \<notin> set (acceptedTypes ?r2)"
    using parser_inv_accepted(1) [OF i1] by (simp add: rejects_facts(3))
  from accepts_ordinary [OF body2 o2 t(1), of o2 p2] t(2) c2
  obtain r3 where r3: "acceptsContentType t o2 p2 ?r2 = Inr r3"
    and b3: "options_type r3 = options_type ?r2"
    and c3: "contentType r3 t =
             Some \<lparr>ct_options = o2(''parser'' := None, ''type'' := None),
                   ct_parser = p2, ct_type = t\<rparr>"
    and m3: "acceptedTypes r3 = acceptedTypes ?r2 @ [t]"
    and o3: "ordinary r3"
    by auto
  have body3: "toLowerCase (options_type r3) \<notin> {''get'', ''options''}"
    using body2 by (simp add: b3)
  from accepts_ordinary [OF body1 o1 t(1), of o2 p2] c1
  have a1: "acceptsContentType t o2 p2 r1 = Inr r1" by auto
  from accepts_ordinary [OF body3 o3 t(1), of o2 p2] c3
  have a3: "acceptsContentType t o2 p2 r3 = Inr r3" by auto
  from r1 m1 c1 m2 c2 r3 m3 c3 a1 a3 show ?thesis by simp
qed

section \<open>Declared routes\<close>

lemma responses_push: "responses (push s self) = responses self"
  by (simp add: push_def)

lemma reqDataParser_push: "reqDataParser (push s self) = reqDataParser self"
  by (simp add: push_def)

lemma reqDataParser_respondsWith:
  "respondsWith d self = Inr r \<Longrightarrow> reqDataParser r = reqDataParser self"
  unfolding respondsWith_def Let_def by (auto split: if_splits prod.splits)

lemma responses_accepts:
  "acceptsContentType type options prs self = Inr r \<Longrightarrow> responses r = responses self"
  by (auto simp: acceptsContentType_def push_def Let_def split: option.splits if_splits)

lemma responses_rejects: "responses (rejectsContentType type self) = responses self"
  by (simp add: rejectsContentType_def split: option.splits)

lemma addStep_Inr:
  "addStep tn nm f self = Inr r \<Longrightarrow> \<exists>s. r = push s self"
  by (auto simp: addStep_def Let_def split: name_arg.splits if_splits)

lemma build_Inr: "build tn self = Inr r \<Longrightarrow> r = self \<or> (\<exists>s. r = push s self)"
  by (auto simp: build_def split: if_splits dest: addStep_Inr)

lemma Route_catch_Inr:
  assumes "Route_catch flt cb self = Inr r"
  shows "responses r = responses self"
    and "parser_inv self \<Longrightarrow> parser_inv r"
    and "ordinary self \<Longrightarrow> ordinary r"
proof -
  from assms obtain cs where r: "r = set_slot_catch cs (last (steps self)) self"
    by (auto simp: Route_catch_def Let_def split: if_splits)
  show "responses r = responses self"
    unfolding r by (cases "last (steps self)") (simp_all add: set_slot_catch_def)
  show "parser_inv r" if "parser_inv self"
    using that unfolding r
    by (cases "last (steps self)")
       (auto simp: set_slot_catch_def parser_inv_def split: option.splits)
  show "ordinary r" if "ordinary self"
    using that unfolding r
    by (cases "last (steps self)")
       (auto simp: set_slot_catch_def ordinary_def split: option.splits)
qed

lemma inv_push:
  "responses_inv (push s self) = responses_inv self"
  "parser_inv (push s self) = parser_inv self"
  by (simp_all add: responses_inv_def parser_inv_def push_def)

lemma declared_invariants: "declared self \<Longrightarrow> responses_inv self \<and> parser_inv self"
proof (induction rule: declared.induct)
  case (new self)
  then show ?case by (simp add: responses_inv_def parser_inv_def)
next
  case (accepts self type options prs r)
  then show ?case
    using parser_inv_accepts [of self type options prs r]
      responses_accepts [of type options prs self r]
    by (simp add: responses_inv_def)
next
  case (rejects self type)
  then show ?case
    by (simp add: parser_inv_rejects responses_inv_def responses_rejects)
next
  case (responds self descriptor r)
  then show ?case
    using respondsWith_responses_inv [of self descriptor r]
    by (simp add: parser_inv_def reqDataParser_respondsWith)
next
  case (main self f)
  then show ?case by (simp add: main_def inv_push)
next
  case (validate self f r)
  then show ?case
    using respondsWith_responses_inv [of "push (Step \<lparr>name = ''validator'', fn = f, catch = []\<rparr>) self"
        "Ctor ValidationError" r]
      reqDataParser_respondsWith [of "Ctor ValidationError"
        "push (Step \<lparr>name = ''validator'', fn = f, catch = []\<rparr>) self" r]
    by (simp add: validate_def inv_push parser_inv_def reqDataParser_push)
next
  case (addStep self ToNumber nm f r)
  then show ?case by (auto dest!: addStep_Inr simp: inv_push)
next
  case (catch self flt cb r)
  then show ?case
    using Route_catch_Inr [of flt cb self r] by (simp add: responses_inv_def)
next
  case (build self ToNumber r)
  then show ?case by (auto dest!: build_Inr simp: inv_push)
qed

text \<open>
  C8. On every route the declarations build, two calls of \<open>respondsWith\<close> for status
  200 leave exactly one schema registered for it, the later one; two calls whose
  descriptors resolve to the same other status add both schemas, in order, at the end of
  the list of that status.
\<close>

theorem C8_respondsWith:
  assumes "declared self"
    and "respondsWith d1 self = Inr r1" and "respondsWith d2 r1 = Inr r2"
  shows "(snd (resolve d1) = Some 200 \<and> snd (resolve d2) = Some 200 \<longrightarrow>
            registered r2 (Some 200) = [fst (resolve d2)]) \<and>
         (snd (resolve d1) = snd (resolve d2) \<and> snd (resolve d2) \<noteq> Some 200 \<longrightarrow>
            registered r2 (snd (resolve d2)) =
              registered self (snd (resolve d2)) @ [fst (resolve d1), fst (resolve d2)])"
  using respondsWith_twice [OF _ assms(2,3)] declared_invariants [OF assms(1)] by blast

lemma resolve_Prim: "resolve (Prim s) = (Prim s, Some 200)"
  by (simp add: resolve_def instanceof_def)

lemma resolve_example_error: "resolve (example_error m) = (example_error m, Some 400)"
  by (simp add: resolve_def instanceof_def example_error_def newError_def err_code_def)

theorem C8_respondsWith_witness:
  "(case respondsWith (Prim ''schemaA'') example_route of
      Inl e \<Rightarrow> []
    | Inr r1 \<Rightarrow> (case respondsWith (Prim ''schemaB'') r1 of
                   Inl e \<Rightarrow> [] | Inr r2 \<Rightarrow> registered r2 (Some 200))) = [Prim ''schemaB''] \<and>
   (case respondsWith (example_error ''a'') example_route of
      Inl e \<Rightarrow> []
    | Inr r1 \<Rightarrow> (case respondsWith (example_error ''b'') r1 of
                   Inl e \<Rightarrow> [] | Inr r2 \<Rightarrow> registered r2 (Some 400)))
     = [example_error ''a'', example_error ''b'']"
proof -
  have i: "declared example_route"
    by (rule declared.new) (simp_all add: example_route_def)
  have e: "registered example_route (Some 400) = []"
    by (simp add: registered_def example_route_def)
  obtain r1 where r1: "respondsWith (Prim ''schemaA'') example_route = Inr r1"
    using respondsWith_registered [of "Prim ''schemaA''" example_route] by auto
  obtain r2 where r2: "respondsWith (Prim ''schemaB'') r1 = Inr r2"
    using respondsWith_registered [of "Prim ''schemaB''" r1] by auto
  obtain s1 where s1: "respondsWith (example_error ''a'') example_route = Inr s1"
    using respondsWith_registered [of "example_error ''a''" example_route]
    by (auto simp: example_error_def)
  obtain s2 where s2: "respondsWith (example_error ''b'') s1 = Inr s2"
    using respondsWith_registered [of "example_error ''b''" s1]
    by (auto simp: example_error_def)
  from C8_respondsWith [OF i r1 r2] have "registered r2 (Some 200) = [Prim ''schemaB'']"
    by (simp add: resolve_Prim)
  moreover from C8_respondsWith [OF i s1 s2]
  have "registered s2 (Some 400) = [example_error ''a'', example_error ''b'']"
    by (simp add: resolve_example_error e)
  ultimately show ?thesis by (simp add: r1 r2 s1 s2)
qed

text \<open>
  C9, as the code has it. On a route the declarations build whose method carries a body
  (any method but \<open>get\<close> and \<open>options\<close>) and whose \<open>contentTypes\<close> is an ordinary
  dictionary, for a type \<open>t\<close> other than \<open>__proto__\<close> and \<open>hasOwnProperty\<close>: after
  \<open>acceptsContentType t\<close> the type is accepted; after \<open>rejectsContentType t\<close> it is neither
  a key of \<open>contentTypes\<close> nor in \<open>mediaTypes\<close>; accepting it again restores it, with the
  options of that declaration; and accepting a type that is accepted already changes
  nothing, so the options declared first stay. None of the calls throws.
\<close>

theorem C9_content_types:
  fixes self :: "'u route"
  assumes "toLowerCase (options_type self) \<notin> {''get'', ''options''}"
    and "declared self" and "ordinary self"
    and "t \<noteq> ''__proto__''" and "t \<noteq> ''hasOwnProperty''"
  shows "\<exists>r1 r3.
           acceptsContentType t o1 p1 self = Inr r1 \<and>
           t \<in> set (acceptedTypes r1) \<and> contentType r1 t \<noteq> None \<and>
           t \<notin> set (acceptedTypes (rejectsContentType t r1)) \<and>
           contentType (rejectsContentType t r1) t = None \<and>
           acceptsContentType t o2 p2 (rejectsContentType t r1) = Inr r3 \<and>
           t \<in> set (acceptedTypes r3) \<and>
           contentType r3 t =
             Some \<lparr>ct_options = o2(''parser'' := None, ''type'' := None),
                   ct_parser = p2, ct_type = t\<rparr> \<and>
           acceptsContentType t o2 p2 r1 = Inr r1 \<and>
           acceptsContentType t o2 p2 r3 = Inr r3"
proof -
  from assms(2) have "parser_inv self" by (simp add: declared_invariants)
  with assms(1) show ?thesis
    using assms(3-5) by (rule content_type_cycle)
qed

lemma toLowerCase_post: "toLowerCase ''post'' = ''post''"
  by (simp add: toLowerCase_def char_toLowerCase_def)

lemma example_route_body:
  "toLowerCase (options_type example_route) \<notin> {''get'', ''options''}"
  by (simp add: example_route_def toLowerCase_post)

lemma accepts_example:
  "acceptsContentType t options prs example_route =
     Inr (example_route
            \<lparr>steps := [ParserRef],
             reqDataParser :=
               Some (assign_entry t
                       \<lparr>ct_options = options(''parser'' := None, ''type'' := None),
                        ct_parser = prs, ct_type = t\<rparr>
                       \<lparr>contentTypes = Map.empty, contentTypesProto = None,
                        mediaTypes = [t], pcatch = []\<rparr>)\<rparr>)"
  using example_route_body
  by (simp add: acceptsContentType_def push_def assign_entry_def example_route_def)

theorem C9_content_types_witness:
  "\<exists>r1 r3.
     acceptsContentType ''application/json'' Map.empty None example_route = Inr r1 \<and>
     ''application/json'' \<in> set (acceptedTypes r1) \<and>
     ''application/json'' \<notin> set (acceptedTypes (rejectsContentType ''application/json'' r1)) \<and>
     acceptsContentType ''application/json'' [''limit'' \<mapsto> ''2mb''] None
       (rejectsContentType ''application/json'' r1) = Inr r3 \<and>
     ''application/json'' \<in> set (acceptedTypes r3) \<and>
     acceptsContentType ''application/json'' [''limit'' \<mapsto> ''2mb''] None r1 = Inr r1"
proof -
  have d: "declared example_route"
    by (rule declared.new) (simp_all add: example_route_def)
  have o: "ordinary example_route"
    by (simp add: ordinary_def example_route_def)
  have n: "''application/json'' \<noteq> ''__proto__''" "''application/json'' \<noteq> ''hasOwnProperty''"
    by simp_all
  from C9_content_types [OF example_route_body d o n, of Map.empty None
      "[''limit'' \<mapsto> ''2mb'']" None]
  show ?thesis by blast
qed

text \<open>
  The claim C9 as stated fails for the types that are names of members of
  \<open>Object.prototype\<close>. Accepting \<open>__proto__\<close> lists it in \<open>mediaTypes\<close> and replaces the
  prototype of \<open>contentTypes\<close>; after rejecting it, accepting it again does nothing, and
  neither does accepting any other type on that route. Accepting \<open>hasOwnProperty\<close> a
  second time throws.
\<close>

theorem C9_counterexample:
  "(case acceptsContentType ''__proto__'' Map.empty None example_route of
      Inl e \<Rightarrow> [[''throws'']]
    | Inr r1 \<Rightarrow>
        (case acceptsContentType ''__proto__'' Map.empty None
                (rejectsContentType ''__proto__'' r1) of
           Inl e \<Rightarrow> [[''throws'']]
         | Inr r3 \<Rightarrow>
             (case acceptsContentType ''application/json'' Map.empty None r3 of
                Inl e \<Rightarrow> [[''throws'']]
              | Inr r4 \<Rightarrow> [acceptedTypes r1, acceptedTypes r3, acceptedTypes r4])))
     = [[''__proto__''], [], []] \<and>
   (case acceptsContentType ''hasOwnProperty'' Map.empty None example_route of
      Inl e \<Rightarrow> Inl e
    | Inr r1 \<Rightarrow> acceptsContentType ''hasOwnProperty'' Map.empty None r1)
     = Inl (TypeError ''contentTypes.hasOwnProperty is not a function'')"
  using example_route_body
  by (simp add: accepts_example assign_entry_def)
     (simp add: acceptsContentType_def rejectsContentType_def acceptedTypes_def
        example_route_def)

section \<open>Running the chain\<close>

lemma promise_catch_settled:
  "(\<And>e. promise p \<noteq> Rejected e) \<Longrightarrow> promise_catch i flt f p = p"
  by (cases "promise p") (auto simp: promise_catch_def)


lemma promise_catch_match:
  "promise p = Rejected e \<Longrightarrow> matches flt e \<Longrightarrow> f e (rr p) = (out, rr1) \<Longrightarrow>
   promise_catch i flt f p = \<lparr>promise = settle out, rr = rr1, trace = trace p @ [CallCatch i e]\<rparr>"
  by (simp add: promise_catch_def)

lemma applyCatchList_settled:
  "(\<And>e. promise p \<noteq> Rejected e) \<Longrightarrow> applyCatchList p cs i = p"
proof (induction p cs i rule: applyCatchList.induct)
  case (1 p catchList index)
  show ?case
  proof (cases "int index > int (length catchList) - 1")
    case True
    then show ?thesis by (simp add: applyCatchList.simps)
  next
    case False
    show ?thesis
    proof (cases "ccallback (catchList ! index)")
      case None
      with False show ?thesis by (simp add: applyCatchList.simps)
    next
      case (Some f)
      have pc: "promise_catch index (cfilter (catchList ! index)) f p = p"
        using "1.prems" by (rule promise_catch_settled)
      have "applyCatchList p catchList (index + 1) = p"
        using "1.IH" [OF False Some] "1.prems" by (simp add: pc)
      with False Some pc show ?thesis
        by (subst applyCatchList.simps) simp
    qed
  qed
qed



lemma then_step_plain:
  "promise p = Fulfilled (Plain v) \<Longrightarrow> step_fn_of rbp self s (rr p) = (out, rr1) \<Longrightarrow>
   then_step c rbp self s p =
     \<lparr>promise = settle out, rr = rr1, trace = trace p @ [CallStep (slot_name s) ReqContext]\<rparr>"
  by (simp add: then_step_def)

lemma then_step_response:
  "promise p = Fulfilled (Resp r) \<Longrightarrow> responseFn r (rr p) = (None, rr1) \<Longrightarrow>
   then_step True rbp self s p =
     \<lparr>promise = Cancelled, rr = rr1, trace = trace p @ [CallResponseFn (label r) ResWrapper]\<rparr>"
  by (simp add: then_step_def)


lemma then_step_cancelled: "promise p = Cancelled \<Longrightarrow> then_step c rbp self s p = p"
  by (simp add: then_step_def)

lemma link_cancelled: "promise p = Cancelled \<Longrightarrow> link c rbp self p s = p"
  by (simp add: link_def then_step_cancelled applyCatchList_settled)

lemma foldl_link_cancelled:
  "promise p = Cancelled \<Longrightarrow> foldl (link c rbp self) p xs = p"
  by (induction xs) (simp_all add: link_cancelled)

lemma catch_next_cancelled: "promise p = Cancelled \<Longrightarrow> catch_next f p = p"
  by (simp add: catch_next_def)

text \<open>
  C1, as the code has it. With cancellation enabled in the promise library, when a step
  that has a step after it returns a \<open>Response\<close> whose callback completes, the link of
  the next step calls the callback once, with the response wrapper as \<open>this\<close>, and
  cancels the chain: the trace ends with the call of the step and the call of the
  callback, so no later step, no catch handler and not \<open>next\<close> is called.
\<close>

theorem C1_short_circuit:
  assumes "steps self = pre @ s # t # post"
    and "foldl (link True rbp self) (start self req) pre = p"
    and "promise p = Fulfilled (Plain v)"
    and "step_fn_of rbp self s (rr p) = (Returns (Resp r), rr1)"
    and "responseFn r rr1 = (None, rr2)"
  shows "callback True rbp self req next =
           \<lparr>promise = Cancelled, rr = rr2,
            trace = trace p @ [CallStep (slot_name s) ReqContext,
                               CallResponseFn (label r) ResWrapper]\<rparr>"
proof -
  let ?q = "\<lparr>promise = Fulfilled (Resp r), rr = rr1,
             trace = trace p @ [CallStep (slot_name s) ReqContext]\<rparr>"
  let ?z = "\<lparr>promise = Cancelled, rr = rr2,
             trace = trace p @ [CallStep (slot_name s) ReqContext,
                                CallResponseFn (label r) ResWrapper]\<rparr>"
  have ts: "then_step True rbp self s p = ?q"
    using then_step_plain [OF assms(3,4)] by (simp add: settle_def)
  have ls: "link True rbp self p s = ?q"
    unfolding link_def ts by (rule applyCatchList_settled) simp
  have tt: "then_step True rbp self t ?q = ?z"
    using then_step_response [of ?q r rr2 rbp self t] assms(5) by simp
  have lt: "link True rbp self ?q t = ?z"
    unfolding link_def tt by (rule applyCatchList_settled) simp
  have "foldl (link True rbp self) (start self req) (steps self) =
          foldl (link True rbp self) ?z post"
    by (simp add: assms(1,2) ls lt)
  also have "\<dots> = ?z" by (rule foldl_link_cancelled) simp
  finally have run: "foldl (link True rbp self) (start self req) (steps self) = ?z" .
  have ne: "steps self \<noteq> []" by (simp add: assms(1))
  show ?thesis
    by (cases "next") (simp_all add: callback_def ne run catch_next_cancelled)
qed

theorem C1_short_circuit_witness:
  "callback True (\<lambda>p. noop) redirect_route example_request None =
     \<lparr>promise = Cancelled,
      rr = example_request\<lparr>wrappedBy := Some ''postUsers'', routeUID := Some ''postUsers'',
                            status := Some 302, headersSent := True\<rparr>,
      trace = [CallStep ''auth'' ReqContext, CallResponseFn ''redirect'' ResWrapper]\<rparr>"
proof -
  let ?s = "Step \<lparr>name = ''auth'', fn = returning (Resp redirect), catch = []\<rparr>"
  let ?t = "Step \<lparr>name = ''main'', fn = returning (Plain (Prim ''done'')), catch = []\<rparr>"
  let ?rr = "example_request\<lparr>wrappedBy := Some ''postUsers'', routeUID := Some ''postUsers''\<rparr>"
  have 1: "steps redirect_route = [] @ ?s # ?t # [noop_step]"
    by (simp add: redirect_route_def)
  have 2: "foldl (link True (\<lambda>p. noop) redirect_route) (start redirect_route example_request) []
             = start redirect_route example_request"
    by simp
  have 3: "promise (start redirect_route example_request) = Fulfilled (Plain Undefined)"
    by (simp add: start_def)
  have r: "rr (start redirect_route example_request) = ?rr"
    by (simp add: start_def redirect_route_def example_route_def)
  have 4: "step_fn_of (\<lambda>p. noop) redirect_route ?s (rr (start redirect_route example_request))
             = (Returns (Resp redirect), ?rr)"
    by (simp add: step_fn_of_def returning_def r)
  have 5: "responseFn redirect ?rr = (None, ?rr\<lparr>status := Some 302, headersSent := True\<rparr>)"
    by (simp add: redirect_def)
  from C1_short_circuit [OF 1 2 3 4 5, of None]
  show ?thesis by (simp add: start_def slot_name_def redirect_def)
qed

text \<open>
  The claim C1 as stated fails when the callback of the \<open>Response\<close> throws: the link
  of the next step is rejected instead of cancelling the chain, the catch of that step
  recovers, and the steps after it run.
\<close>

theorem C1_counterexample:
  "callback True (\<lambda>p. noop) broken_route example_request None =
     \<lparr>promise = Fulfilled (Plain Undefined),
      rr = example_request\<lparr>wrappedBy := Some ''postUsers'', routeUID := Some ''postUsers''\<rparr>,
      trace = [CallStep ''auth'' ReqContext, CallResponseFn ''broken'' ResWrapper,
               CallCatch 0 (TypeError ''render''), CallStep ''audit'' ReqContext,
               CallStep ''noop'' ReqContext]\<rparr>"
  by (simp add: callback_def broken_route_def example_route_def start_def link_def then_step_def
      step_fn_of_def slot_catch_def slot_name_def applyCatchList.simps promise_catch_def
      settle_def returning_def handling_def broken_def noop_step_def audit_step_def noop_def
      instanceof_def TypeError_def newError_def)





section \<open>Handling errors\<close>

lemma instanceof_Obj: "instanceof v c \<Longrightarrow> v \<noteq> Undefined \<and> v \<noteq> Null"
  by (auto simp: instanceof_def)

lemma err_code_stamp: "err_code (stamp req err) = err_code err"
  by (cases err) (simp_all add: stamp_def err_code_def setUID_def setOrigin_def)

lemma instanceof_stamp: "instanceof (stamp req err) c = instanceof err c"
  by (cases err) (simp_all add: stamp_def instanceof_def setUID_def setOrigin_def)

lemma errorHandler_undefined:
  "errorHandler a Undefined h = (Returned, h\<lparr>hlog := hlog h @ [Next]\<rparr>)"
  by (subst errorHandler.simps) simp

lemma errorHandler_null:
  "errorHandler a Null h =
     errorHandler a (Obj (ServiceError ''Got error of type NULL in the Error Hanlder middleware'')) h"
  by (subst errorHandler.simps) simp

lemma errorHandler_client:
  assumes "instanceof err ''RequestError''" "\<not> instanceof err ''ServiceError''"
  shows "errorHandler a err h = render a err h"
  using assms instanceof_Obj [OF assms(1)]
  by (subst errorHandler.simps) simp

lemma errorHandler_service:
  assumes "instanceof err ''RequestError''" "instanceof err ''ServiceError''"
  shows "listeners a ''error'' \<noteq> [] \<Longrightarrow>
           errorHandler a err h =
             render a (stamp (hres h) err)
               (h\<lparr>hlog := hlog h @ [SetOrigin (routeUID (hres h)), SetUID (UID (hres h)),
                                     Emit ''error'' (stamp (hres h) err)]\<rparr>)"
    and "listeners a ''error'' = [] \<Longrightarrow>
           errorHandler a err h =
             (Threw (unhandled (stamp (hres h) err)),
              h\<lparr>hlog := hlog h @ [SetOrigin (routeUID (hres h)), SetUID (UID (hres h))]\<rparr>)"
  using assms instanceof_Obj [OF assms(1)]
  by (subst errorHandler.simps; simp add: emit_error_def Let_def)+

lemma render_default:
  assumes "listeners a ''error-response'' = [defaultErrorResponse]" "\<not> headersSent (hres h)"
  shows "render a err h =
           (Returned,
            \<lparr>hres = (hres h)\<lparr>status := err_code err, headersSent := True, body := Some err\<rparr>,
             hlog = hlog h @ [ResStatus (err_code err), EmitAsyncSeries ''error-response'' err]\<rparr>)"
  using assms by (simp add: render_def defaultErrorResponse_def)

lemma in_set_tl: "x \<in> set (tl xs) \<Longrightarrow> x \<in> set xs"
  by (cases xs) auto

lemma errorHandler_other:
  assumes "v \<noteq> Undefined" "v \<noteq> Null" "\<not> instanceof v ''Error''" "\<not> instanceof v ''RequestError''"
  shows "errorHandler a v h = (Returned, h)"
proof -
  have "\<not> errorProtoAbove v"
    using assms(3) by (auto simp: errorProtoAbove_def instanceof_def split: jsval.splits dest: in_set_tl)
  with assms show ?thesis
    by (subst errorHandler.simps) simp
qed

text \<open>
  C2, as the code has it. For a \<open>RequestError\<close> that is not a \<open>ServiceError\<close> the handler
  sets the status of the response to the code of the error and gives the error itself,
  unchanged, to the listeners of \<open>error-response\<close>; with the default listener alone and
  no response sent yet, the error is the body. It does not stamp such an error. A
  \<open>ServiceError\<close> is stamped with the route identifier and the request identifier of
  the request, once, and keeps its code; then the event \<open>error\<close> is emitted, which
  throws the error when the application has no listener of \<open>error\<close>, and is followed by
  the same rendering when it has one.
\<close>

theorem C2_request_error:
  assumes "instanceof err ''RequestError''"
  shows "(\<not> instanceof err ''ServiceError'' \<longrightarrow>
            errorHandler a err h = render a err h \<and>
            (listeners a ''error-response'' = [defaultErrorResponse] \<and>
             \<not> headersSent (hres h) \<longrightarrow>
               errorHandler a err h =
                 (Returned,
                  \<lparr>hres = (hres h)\<lparr>status := err_code err, headersSent := True,
                                   body := Some err\<rparr>,
                   hlog = hlog h @ [ResStatus (err_code err),
                                    EmitAsyncSeries ''error-response'' err]\<rparr>))) \<and>
         (instanceof err ''ServiceError'' \<longrightarrow>
            err_code (stamp (hres h) err) = err_code err \<and>
            (listeners a ''error'' \<noteq> [] \<longrightarrow>
               errorHandler a err h =
                 render a (stamp (hres h) err)
                   (h\<lparr>hlog := hlog h @ [SetOrigin (routeUID (hres h)), SetUID (UID (hres h)),
                                         Emit ''error'' (stamp (hres h) err)]\<rparr>)) \<and>
            (listeners a ''error'' = [] \<longrightarrow>
               errorHandler a err h =
                 (Threw (unhandled (stamp (hres h) err)),
                  h\<lparr>hlog := hlog h @ [SetOrigin (routeUID (hres h)),
                                        SetUID (UID (hres h))]\<rparr>)))"
proof -
  have c: "errorHandler a err h = render a err h"
    if "\<not> instanceof err ''ServiceError''"
    using assms that by (rule errorHandler_client)
  have d: "errorHandler a err h =
                 (Returned,
                  \<lparr>hres = (hres h)\<lparr>status := err_code err, headersSent := True,
                                   body := Some err\<rparr>,
                   hlog = hlog h @ [ResStatus (err_code err),
                                    EmitAsyncSeries ''error-response'' err]\<rparr>)"
    if "\<not> instanceof err ''ServiceError''"
      "listeners a ''error-response'' = [defaultErrorResponse]" "\<not> headersSent (hres h)"
    using that by (simp add: c render_default)
  from c d errorHandler_service [OF assms, of a h] err_code_stamp [of "hres h" err]
  show ?thesis by blast
qed

theorem C2_request_error_witness:
  "errorHandler default_app (example_error ''bad input'')
       \<lparr>hres = example_request\<lparr>routeUID := Some ''postUsers''\<rparr>, hlog = []\<rparr> =
     (Returned,
      \<lparr>hres = example_request\<lparr>routeUID := Some ''postUsers'', status := Some 400,
                                headersSent := True,
                                body := Some (example_error ''bad input'')\<rparr>,
       hlog = [ResStatus (Some 400),
               EmitAsyncSeries ''error-response'' (example_error ''bad input'')]\<rparr>)"
proof -
  let ?h = "\<lparr>hres = example_request\<lparr>routeUID := Some ''postUsers''\<rparr>, hlog = []\<rparr>"
  have r: "instanceof (example_error ''bad input'') ''RequestError''"
    by (simp add: instanceof_def example_error_def newError_def)
  have n: "\<not> instanceof (example_error ''bad input'') ''ServiceError''"
    by (simp add: instanceof_def example_error_def newError_def)
  have l: "listeners default_app ''error-response'' = [defaultErrorResponse] \<and>
           \<not> headersSent (hres ?h)"
    by (simp add: default_app_def example_request_def)
  have c: "err_code (example_error ''bad input'') = Some 400"
    by (simp add: err_code_def example_error_def newError_def)
  from C2_request_error [OF r, of default_app ?h] n l
  have "errorHandler default_app (example_error ''bad input'') ?h =
          (Returned,
           \<lparr>hres = (hres ?h)\<lparr>status := err_code (example_error ''bad input''),
                              headersSent := True,
                              body := Some (example_error ''bad input'')\<rparr>,
            hlog = hlog ?h @ [ResStatus (err_code (example_error ''bad input'')),
                             EmitAsyncSeries ''error-response'' (example_error ''bad input'')]\<rparr>)"
    by blast
  then show ?thesis by (simp add: c)
qed

text \<open>
  The claim C2 as stated fails: a client error is not stamped at all. The request has a
  route identifier and a request identifier, yet neither \<open>setOrigin\<close> nor \<open>setUID\<close> is
  called, and the error rendered has no origin and no identifier.
\<close>

theorem C2_counterexample:
  "hlog (snd (errorHandler default_app (example_error ''bad input'')
           \<lparr>hres = example_request\<lparr>routeUID := Some ''postUsers''\<rparr>, hlog = []\<rparr>)) =
     [ResStatus (Some 400), EmitAsyncSeries ''error-response'' (example_error ''bad input'')] \<and>
   body (hres (snd (errorHandler default_app (example_error ''bad input'')
           \<lparr>hres = example_request\<lparr>routeUID := Some ''postUsers''\<rparr>, hlog = []\<rparr>))) =
     Some (Obj \<lparr>protos = [''RequestError'', ''Error'', ''Object''], code = Some 400,
               message = ''bad input'', origin = None, uid = None\<rparr>)"
proof -
  let ?h = "\<lparr>hres = example_request\<lparr>routeUID := Some ''postUsers''\<rparr>, hlog = []\<rparr>"
  have r: "instanceof (example_error ''bad input'') ''RequestError''"
    by (simp add: instanceof_def example_error_def newError_def)
  have n: "\<not> instanceof (example_error ''bad input'') ''ServiceError''"
    by (simp add: instanceof_def example_error_def newError_def)
  have c: "err_code (example_error ''bad input'') = Some 400"
    by (simp add: err_code_def example_error_def newError_def)
  have l: "listeners default_app ''error-response'' = [defaultErrorResponse]"
    "\<not> headersSent (hres ?h)"
    by (simp_all add: default_app_def example_request_def)
  have e: "example_error ''bad input'' =
             Obj \<lparr>protos = [''RequestError'', ''Error'', ''Object''], code = Some 400,
                   message = ''bad input'', origin = None, uid = None\<rparr>"
    by (simp add: example_error_def newError_def)
  have "hlog (snd (errorHandler default_app (example_error ''bad input'') ?h)) =
     [ResStatus (Some 400), EmitAsyncSeries ''error-response'' (example_error ''bad input'')] \<and>
   body (hres (snd (errorHandler default_app (example_error ''bad input'') ?h))) =
     Some (example_error ''bad input'')"
    unfolding errorHandler_client [OF r n] render_default [OF l] c by simp
  then show ?thesis unfolding e .
qed

text \<open>
  C3, as the code has it. Given \<open>undefined\<close> the handler calls \<open>next\<close> and does nothing
  else. Given \<open>null\<close> it handles a new \<open>ServiceError\<close> in its place, which is stamped
  once; when the application has a listener of \<open>error\<close>, the error is rendered as every
  \<open>RequestError\<close> is, with status 500 and the generic message (as the body, with the
  default listener alone and no response sent yet). Given a value that is neither of the
  two nor an instance of \<open>Error\<close> or \<open>RequestError\<close>, it returns and leaves the response
  and the log as they were.
\<close>

theorem C3_degenerate_inputs:
  fixes h :: "'u handled"
  defines "e \<equiv> stamp (hres h)
                 (Obj (ServiceError ''Got error of type NULL in the Error Hanlder middleware''))"
  shows "errorHandler a Undefined h = (Returned, h\<lparr>hlog := hlog h @ [Next]\<rparr>) \<and>
         errorHandler a Null h =
           errorHandler a
             (Obj (ServiceError ''Got error of type NULL in the Error Hanlder middleware'')) h \<and>
         instanceof e ''ServiceError'' \<and> err_code e = Some 500 \<and>
         (listeners a ''error'' \<noteq> [] \<longrightarrow>
            errorHandler a Null h =
              render a e
                (h\<lparr>hlog := hlog h @ [SetOrigin (routeUID (hres h)), SetUID (UID (hres h)),
                                      Emit ''error'' e]\<rparr>) \<and>
            (listeners a ''error-response'' = [defaultErrorResponse] \<and>
             \<not> headersSent (hres h) \<longrightarrow>
               errorHandler a Null h =
                 (Returned,
                  \<lparr>hres = (hres h)\<lparr>status := Some 500, headersSent := True, body := Some e\<rparr>,
                   hlog = hlog h @ [SetOrigin (routeUID (hres h)), SetUID (UID (hres h)),
                                    Emit ''error'' e, ResStatus (Some 500),
                                    EmitAsyncSeries ''error-response'' e]\<rparr>))) \<and>
         (v \<noteq> Undefined \<and> v \<noteq> Null \<and> \<not> instanceof v ''Error'' \<and>
          \<not> instanceof v ''RequestError'' \<longrightarrow> errorHandler a v h = (Returned, h))"
proof -
  let ?s = "Obj (ServiceError ''Got error of type NULL in the Error Hanlder middleware'')"
  let ?h1 = "h\<lparr>hlog := hlog h @ [SetOrigin (routeUID (hres h)), SetUID (UID (hres h)),
                                Emit ''error'' e]\<rparr>"
  have r: "instanceof ?s ''RequestError''" and s: "instanceof ?s ''ServiceError''"
    by (simp_all add: instanceof_def ServiceError_def newError_def)
  have 3: "instanceof e ''ServiceError''"
    using s by (simp add: e_def instanceof_stamp)
  have 4: "err_code e = Some 500"
    by (simp add: e_def err_code_stamp) (simp add: err_code_def ServiceError_def newError_def)
  have 5: "errorHandler a Null h = render a e ?h1" if "listeners a ''error'' \<noteq> []"
    unfolding errorHandler_null e_def using errorHandler_service(1) [OF r s that] .
  have 6: "errorHandler a Null h =
                 (Returned,
                  \<lparr>hres = (hres h)\<lparr>status := Some 500, headersSent := True, body := Some e\<rparr>,
                   hlog = hlog h @ [SetOrigin (routeUID (hres h)), SetUID (UID (hres h)),
                                    Emit ''error'' e, ResStatus (Some 500),
                                    EmitAsyncSeries ''error-response'' e]\<rparr>)"
    if "listeners a ''error'' \<noteq> []"
      "listeners a ''error-response'' = [defaultErrorResponse]" "\<not> headersSent (hres h)"
    using render_default [of a ?h1 e] that by (simp add: 5 4)
  from errorHandler_undefined [of a h] errorHandler_null [of a h] 3 4 5 6
    errorHandler_other [of v a h]
  show ?thesis by blast
qed

theorem C3_degenerate_inputs_witness:
  "errorHandler logging_app Null \<lparr>hres = example_request, hlog = []\<rparr> =
     (Returned,
      \<lparr>hres = example_request
          \<lparr>status := Some 500, headersSent := True,
           body := Some (Obj \<lparr>protos = [''ServiceError'', ''RequestError'', ''Error'', ''Object''],
                              code = Some 500, message = ''Internal Server Error'',
                              origin = None, uid = Some ''req-1''\<rparr>)\<rparr>,
       hlog = [SetOrigin None, SetUID (Some ''req-1''),
               Emit ''error''
                 (Obj \<lparr>protos = [''ServiceError'', ''RequestError'', ''Error'', ''Object''],
                       code = Some 500, message = ''Internal Server Error'',
                       origin = None, uid = Some ''req-1''\<rparr>),
               ResStatus (Some 500),
               EmitAsyncSeries ''error-response''
                 (Obj \<lparr>protos = [''ServiceError'', ''RequestError'', ''Error'', ''Object''],
                       code = Some 500, message = ''Internal Server Error'',
                       origin = None, uid = Some ''req-1''\<rparr>)]\<rparr>) \<and>
   errorHandler logging_app (Prim ''failed'') \<lparr>hres = example_request, hlog = []\<rparr> =
     (Returned, \<lparr>hres = example_request, hlog = []\<rparr>)"
proof -
  let ?h = "\<lparr>hres = example_request, hlog = []\<rparr>"
  have l: "listeners logging_app ''error'' \<noteq> []"
    "listeners logging_app ''error-response'' = [defaultErrorResponse] \<and>
     \<not> headersSent (hres ?h)"
    by (simp_all add: logging_app_def example_request_def)
  have 1: "Prim ''failed'' \<noteq> Undefined \<and> Prim ''failed'' \<noteq> Null \<and>
           \<not> instanceof (Prim ''failed'') ''Error'' \<and>
           \<not> instanceof (Prim ''failed'') ''RequestError''"
    by (simp add: instanceof_def)
  have e: "stamp (hres ?h)
             (Obj (ServiceError ''Got error of type NULL in the Error Hanlder middleware'')) =
           Obj \<lparr>protos = [''ServiceError'', ''RequestError'', ''Error'', ''Object''],
                 code = Some 500, message = ''Internal Server Error'',
                 origin = None, uid = Some ''req-1''\<rparr>"
    by (simp add: stamp_def ServiceError_def newError_def setUID_def setOrigin_def
        example_request_def)
  from C3_degenerate_inputs [of logging_app ?h "Prim ''failed''"] l 1
  have "errorHandler logging_app Null ?h =
          (Returned,
           \<lparr>hres = (hres ?h)\<lparr>status := Some 500, headersSent := True,
                 body := Some (stamp (hres ?h)
                   (Obj (ServiceError ''Got error of type NULL in the Error Hanlder middleware'')))\<rparr>,
            hlog = hlog ?h @ [SetOrigin (routeUID (hres ?h)), SetUID (UID (hres ?h)),
                    Emit ''error'' (stamp (hres ?h)
                   (Obj (ServiceError ''Got error of type NULL in the Error Hanlder middleware''))),
                    ResStatus (Some 500),
                    EmitAsyncSeries ''error-response'' (stamp (hres ?h)
                   (Obj (ServiceError ''Got error of type NULL in the Error Hanlder middleware'')))]\<rparr>)"
    and "errorHandler logging_app (Prim ''failed'') ?h = (Returned, ?h)"
    by blast+
  then show ?thesis unfolding e by (simp add: example_request_def)
qed

text \<open>
  The claim C3 as stated fails for \<open>null\<close> on an application that has no listener of
  \<open>error\<close>: emitting the event throws the stamped error before the status is set, and
  nothing is rendered.
\<close>

theorem C3_counterexample:
  "errorHandler default_app Null \<lparr>hres = example_request, hlog = []\<rparr> =
     (Threw (Obj \<lparr>protos = [''ServiceError'', ''RequestError'', ''Error'', ''Object''],
                  code = Some 500, message = ''Internal Server Error'',
                  origin = None, uid = Some ''req-1''\<rparr>),
      \<lparr>hres = example_request, hlog = [SetOrigin None, SetUID (Some ''req-1'')]\<rparr>)"
proof -
  let ?s = "Obj (ServiceError ''Got error of type NULL in the Error Hanlder middleware'')"
  have r: "instanceof ?s ''RequestError''" and s: "instanceof ?s ''ServiceError''"
    by (simp_all add: instanceof_def ServiceError_def newError_def)
  have l: "listeners default_app ''error'' = []"
    by (simp add: default_app_def)
  show ?thesis
    unfolding errorHandler_null errorHandler_service(2) [OF r s l]
    by (simp add: unhandled_def instanceof_def stamp_def ServiceError_def newError_def
        setUID_def setOrigin_def example_request_def)
qed

end
